theory Spec2Isabelle
  imports Main "HOL-Library.Word"
begin

unbundle bit_operations_syntax

section \<open>JavaScript values used by App.js\<close>

text \<open>
  A JavaScript string is a sequence of 16-bit code units. String literals of the source
  are ASCII and are written \<open>js ''...''\<close>.
\<close>

type_synonym jschar = "16 word"
type_synonym jsstring = "jschar list"

definition js :: "string \<Rightarrow> jsstring" where
  "js = map of_char"

text \<open>
  The values \<open>JSON.parse\<close> can produce, which are also the values the component keeps in
  \<open>joke\<close> and in the elements of \<open>notes\<close>. Numbers are IEEE doubles; they stay abstract
  (type \<open>'n\<close>), and the three conversions the program needs are parameters: the Number
  value of a JSON numeric literal, the text \<open>JSON.stringify\<close> writes for a Number, and
  ToBoolean on a Number. An object is its own properties in property order.
\<close>

datatype 'n json =
    JNull
  | JBool bool
  | JNumber 'n
  | JString jsstring
  | JArray "'n json list"
  | JObject "(jsstring \<times> 'n json) list"

datatype js_error = SyntaxError | TypeError jsstring | Error jsstring

fun isArray :: "'n json \<Rightarrow> bool" where
  "isArray (JArray xs) = True"
| "isArray v = False"

fun elements :: "'n json \<Rightarrow> 'n json list" where
  "elements (JArray xs) = xs"
| "elements v = []"

text \<open>ToBoolean, as \<open>if (x)\<close>, \<open>!x\<close>, \<open>x && y\<close> and \<open>x ? y : z\<close> apply it.\<close>

fun truthy :: "('n \<Rightarrow> bool) \<Rightarrow> 'n json \<Rightarrow> bool" where
  "truthy nb JNull = False"
| "truthy nb (JBool b) = b"
| "truthy nb (JNumber x) = nb x"
| "truthy nb (JString s) = (s \<noteq> [])"
| "truthy nb (JArray xs) = True"
| "truthy nb (JObject ms) = True"

text \<open>
  Reading an own data property by name; \<open>None\<close> is \<open>undefined\<close>. The two names App.js
  reads, \<open>setup\<close> and \<open>punchline\<close>, are defined on no prototype, so a value that is not an
  object, or an object without the property, gives \<open>undefined\<close>.
\<close>

fun get_property :: "'n json \<Rightarrow> jsstring \<Rightarrow> 'n json option" where
  "get_property (JObject ms) k = map_of ms k"
| "get_property v k = None"

subsection \<open>String.prototype.trim\<close>

text \<open>
  \<open>trim\<close> removes leading and trailing WhiteSpace and LineTerminator code units
  (ECMA-262, TrimString with \<open>start+end\<close>).
\<close>

definition is_white_space :: "jschar \<Rightarrow> bool" where
  "is_white_space c \<longleftrightarrow>
     c = 0x0009 \<or> c = 0x000A \<or> c = 0x000B \<or> c = 0x000C \<or> c = 0x000D \<or> c = 0x0020 \<or>
     c = 0x00A0 \<or> c = 0x1680 \<or> (0x2000 \<le> c \<and> c \<le> 0x200A) \<or> c = 0x2028 \<or> c = 0x2029 \<or>
     c = 0x202F \<or> c = 0x205F \<or> c = 0x3000 \<or> c = 0xFEFF"

definition trim :: "jsstring \<Rightarrow> jsstring" where
  "trim s = rev (dropWhile is_white_space (rev (dropWhile is_white_space s)))"

subsection \<open>JSON.stringify\<close>

text \<open>
  QuoteJSONString of ECMA-262: the short escapes; a backslash, the letter u and four
  lower-case hexadecimal digits for the other control characters and for a surrogate that
  is not part of a pair; every other code unit as it is.
\<close>

definition hex_digit :: "jschar \<Rightarrow> jschar" where
  "hex_digit d = (if d < 10 then 0x30 + d else 0x57 + d)"

definition UnicodeEscape :: "jschar \<Rightarrow> jsstring" where
  "UnicodeEscape c =
     [0x5C, 0x75, hex_digit (drop_bit 12 c), hex_digit (take_bit 4 (drop_bit 8 c)),
      hex_digit (take_bit 4 (drop_bit 4 c)), hex_digit (take_bit 4 c)]"

definition is_leading_surrogate :: "jschar \<Rightarrow> bool" where
  "is_leading_surrogate c \<longleftrightarrow> 0xD800 \<le> c \<and> c \<le> 0xDBFF"

definition is_trailing_surrogate :: "jschar \<Rightarrow> bool" where
  "is_trailing_surrogate c \<longleftrightarrow> 0xDC00 \<le> c \<and> c \<le> 0xDFFF"

fun quote_chars :: "jsstring \<Rightarrow> jsstring" where
  "quote_chars [] = []"
| "quote_chars (c # cs) =
     (if c = 0x08 then [0x5C, 0x62] @ quote_chars cs
      else if c = 0x09 then [0x5C, 0x74] @ quote_chars cs
      else if c = 0x0A then [0x5C, 0x6E] @ quote_chars cs
      else if c = 0x0C then [0x5C, 0x66] @ quote_chars cs
      else if c = 0x0D then [0x5C, 0x72] @ quote_chars cs
      else if c = 0x22 then [0x5C, 0x22] @ quote_chars cs
      else if c = 0x5C then [0x5C, 0x5C] @ quote_chars cs
      else if c < 0x20 then UnicodeEscape c @ quote_chars cs
      else if is_leading_surrogate c then
        (case cs of
           [] \<Rightarrow> UnicodeEscape c
         | d # ds \<Rightarrow>
             if is_trailing_surrogate d then c # d # quote_chars ds
             else UnicodeEscape c @ quote_chars cs)
      else if is_trailing_surrogate c then UnicodeEscape c @ quote_chars cs
      else c # quote_chars cs)"

definition QuoteJSONString :: "jsstring \<Rightarrow> jsstring" where
  "QuoteJSONString s = [0x22] @ quote_chars s @ [0x22]"

text \<open>
  SerializeJSONProperty without indentation, on the values above (none of them has a
  \<open>toJSON\<close> method or is \<open>undefined\<close>). \<open>nstr\<close> is the text written for a Number.
\<close>

fun JSON_stringify :: "('n \<Rightarrow> jsstring) \<Rightarrow> 'n json \<Rightarrow> jsstring"
  and SerializeJSONArray :: "('n \<Rightarrow> jsstring) \<Rightarrow> 'n json list \<Rightarrow> jsstring"
  and SerializeJSONObject :: "('n \<Rightarrow> jsstring) \<Rightarrow> (jsstring \<times> 'n json) list \<Rightarrow> jsstring"
where
  "JSON_stringify nstr JNull = js ''null''"
| "JSON_stringify nstr (JBool b) = (if b then js ''true'' else js ''false'')"
| "JSON_stringify nstr (JNumber x) = nstr x"
| "JSON_stringify nstr (JString s) = QuoteJSONString s"
| "JSON_stringify nstr (JArray xs) = js ''['' @ SerializeJSONArray nstr xs @ js '']''"
| "JSON_stringify nstr (JObject ms) = js ''{'' @ SerializeJSONObject nstr ms @ js ''}''"
| "SerializeJSONArray nstr [] = []"
| "SerializeJSONArray nstr [x] = JSON_stringify nstr x"
| "SerializeJSONArray nstr (x # y # ys) =
     JSON_stringify nstr x @ js '','' @ SerializeJSONArray nstr (y # ys)"
| "SerializeJSONObject nstr [] = []"
| "SerializeJSONObject nstr [(k, v)] = QuoteJSONString k @ js '':'' @ JSON_stringify nstr v"
| "SerializeJSONObject nstr ((k, v) # m # ms) =
     QuoteJSONString k @ js '':'' @ JSON_stringify nstr v @ js '','' @
     SerializeJSONObject nstr (m # ms)"

subsection \<open>JSON.parse\<close>

text \<open>
  The JSON grammar of ECMA-262 (no reviver). White space is tab, line feed, carriage
  return and space.
\<close>

definition is_json_ws :: "jschar \<Rightarrow> bool" where
  "is_json_ws c \<longleftrightarrow> c = 0x09 \<or> c = 0x0A \<or> c = 0x0D \<or> c = 0x20"

definition skip_ws :: "jsstring \<Rightarrow> jsstring" where
  "skip_ws s = dropWhile is_json_ws s"

definition is_digit :: "jschar \<Rightarrow> bool" where
  "is_digit c \<longleftrightarrow> 0x30 \<le> c \<and> c \<le> 0x39"

definition hex_value :: "jschar \<Rightarrow> jschar option" where
  "hex_value c =
     (if 0x30 \<le> c \<and> c \<le> 0x39 then Some (c - 0x30)
      else if 0x61 \<le> c \<and> c \<le> 0x66 then Some (c - 0x57)
      else if 0x41 \<le> c \<and> c \<le> 0x46 then Some (c - 0x37)
      else None)"

definition hex4 :: "jschar \<Rightarrow> jschar \<Rightarrow> jschar \<Rightarrow> jschar \<Rightarrow> jschar option" where
  "hex4 a b c d =
     (case (hex_value a, hex_value b, hex_value c, hex_value d) of
        (Some x, Some y, Some z, Some w) \<Rightarrow> Some (((x * 16 + y) * 16 + z) * 16 + w)
      | _ \<Rightarrow> None)"

definition unescape :: "jschar \<Rightarrow> jschar option" where
  "unescape e =
     (if e = 0x22 then Some 0x22
      else if e = 0x5C then Some 0x5C
      else if e = 0x2F then Some 0x2F
      else if e = 0x62 then Some 0x08
      else if e = 0x66 then Some 0x0C
      else if e = 0x6E then Some 0x0A
      else if e = 0x72 then Some 0x0D
      else if e = 0x74 then Some 0x09
      else None)"

text \<open>
  The characters of a string literal after its opening quote: the string value and the
  text after the closing quote, \<open>None\<close> when the literal is malformed.
\<close>

fun parse_chars :: "jsstring \<Rightarrow> jsstring \<Rightarrow> (jsstring \<times> jsstring) option" where
  "parse_chars acc [] = None"
| "parse_chars acc (c # cs) =
     (if c = 0x22 then Some (acc, cs)
      else if c = 0x5C then
        (case cs of
           [] \<Rightarrow> None
         | e # es \<Rightarrow>
             if e = 0x75 then
               (case es of
                  h1 # h2 # h3 # h4 # r \<Rightarrow>
                    (case hex4 h1 h2 h3 h4 of
                       None \<Rightarrow> None
                     | Some u \<Rightarrow> parse_chars (acc @ [u]) r)
                | _ \<Rightarrow> None)
             else
               (case unescape e of
                  None \<Rightarrow> None
                | Some u \<Rightarrow> parse_chars (acc @ [u]) es))
      else if c < 0x20 then None
      else parse_chars (acc @ [c]) cs)"

text \<open>A numeric literal: its text and the text after it.\<close>

definition lex_int :: "jsstring \<Rightarrow> (jsstring \<times> jsstring) option" where
  "lex_int s =
     (case s of
        [] \<Rightarrow> None
      | c # cs \<Rightarrow>
          if c = 0x30 then Some ([c], cs)
          else if is_digit c then Some (c # takeWhile is_digit cs, dropWhile is_digit cs)
          else None)"

definition lex_frac :: "jsstring \<Rightarrow> (jsstring \<times> jsstring) option" where
  "lex_frac s =
     (case s of
        [] \<Rightarrow> Some ([], s)
      | c # cs \<Rightarrow>
          if c = 0x2E then
            (if takeWhile is_digit cs = [] then None
             else Some (c # takeWhile is_digit cs, dropWhile is_digit cs))
          else Some ([], s))"

definition lex_sign :: "jsstring \<Rightarrow> jsstring \<times> jsstring" where
  "lex_sign s =
     (case s of
        [] \<Rightarrow> ([], s)
      | c # cs \<Rightarrow> if c = 0x2B \<or> c = 0x2D then ([c], cs) else ([], s))"

definition lex_exp :: "jsstring \<Rightarrow> (jsstring \<times> jsstring) option" where
  "lex_exp s =
     (case s of
        [] \<Rightarrow> Some ([], s)
      | c # cs \<Rightarrow>
          if c = 0x65 \<or> c = 0x45 then
            (case lex_sign cs of
               (sg, ds) \<Rightarrow>
                 if takeWhile is_digit ds = [] then None
                 else Some (c # sg @ takeWhile is_digit ds, dropWhile is_digit ds))
          else Some ([], s))"

definition lex_number :: "jsstring \<Rightarrow> (jsstring \<times> jsstring) option" where
  "lex_number s =
     (case (case s of [] \<Rightarrow> ([], s) | c # cs \<Rightarrow> if c = 0x2D then ([c], cs) else ([], s)) of
        (neg, s1) \<Rightarrow>
          (case lex_int s1 of
             None \<Rightarrow> None
           | Some (ip, s2) \<Rightarrow>
               (case lex_frac s2 of
                  None \<Rightarrow> None
                | Some (fp, s3) \<Rightarrow>
                    (case lex_exp s3 of
                       None \<Rightarrow> None
                     | Some (ep, s4) \<Rightarrow> Some (neg @ ip @ fp @ ep, s4)))))"

text \<open>
  Property order of an ordinary object: array indices (canonical numeric strings below
  \<open>2^32 - 1\<close>) first, ascending, then the other keys in creation order. Defining a key
  that exists replaces its value in place, which is how a duplicate key of a JSON object
  is treated.
\<close>

definition array_index :: "jsstring \<Rightarrow> int option" where
  "array_index k =
     (if k = [0x30] then Some 0
      else if k \<noteq> [] \<and> list_all is_digit k \<and> hd k \<noteq> 0x30 \<and>
              foldl (\<lambda>a c. 10 * a + uint (c - 0x30)) 0 k < 4294967295
      then Some (foldl (\<lambda>a c. 10 * a + uint (c - 0x30)) 0 k)
      else None)"

fun insert_index :: "int \<Rightarrow> jsstring \<Rightarrow> 'v \<Rightarrow> (jsstring \<times> 'v) list \<Rightarrow> (jsstring \<times> 'v) list" where
  "insert_index i k v [] = [(k, v)]"
| "insert_index i k v ((k', v') # ms) =
     (case array_index k' of
        None \<Rightarrow> (k, v) # (k', v') # ms
      | Some j \<Rightarrow> if j < i then (k', v') # insert_index i k v ms else (k, v) # (k', v') # ms)"

definition CreateDataProperty :: "(jsstring \<times> 'v) list \<Rightarrow> jsstring \<Rightarrow> 'v \<Rightarrow> (jsstring \<times> 'v) list" where
  "CreateDataProperty ms k v =
     (if map_of ms k \<noteq> None then map (\<lambda>(k', v'). if k' = k then (k', v) else (k', v')) ms
      else (case array_index k of
              None \<Rightarrow> ms @ [(k, v)]
            | Some i \<Rightarrow> insert_index i k v ms))"

text \<open>
  The recursive descent over values. The first argument after the Number conversion
  bounds the number of nested calls; \<open>JSON_parse\<close> passes a bound that is never reached
  (lemma \<open>parse_value_fuel\<close> below), so \<open>OutOfFuel\<close> is not a result of \<open>JSON_parse\<close>.
\<close>

datatype 'a presult = OutOfFuel | Reject | Accept 'a jsstring

fun parse_value :: "(jsstring \<Rightarrow> 'n) \<Rightarrow> nat \<Rightarrow> jsstring \<Rightarrow> 'n json presult"
  and parse_elements :: "(jsstring \<Rightarrow> 'n) \<Rightarrow> nat \<Rightarrow> jsstring \<Rightarrow> 'n json list \<Rightarrow> 'n json presult"
  and parse_members ::
    "(jsstring \<Rightarrow> 'n) \<Rightarrow> nat \<Rightarrow> jsstring \<Rightarrow> (jsstring \<times> 'n json) list \<Rightarrow> 'n json presult"
where
  "parse_value num 0 s = OutOfFuel"
| "parse_value num (Suc n) s =
     (case skip_ws s of
        [] \<Rightarrow> Reject
      | c # cs \<Rightarrow>
          if c = 0x5B then
            (case skip_ws cs of
               [] \<Rightarrow> Reject
             | d # ds \<Rightarrow>
                 if d = 0x5D then Accept (JArray []) ds
                 else parse_elements num n (d # ds) [])
          else if c = 0x7B then
            (case skip_ws cs of
               [] \<Rightarrow> Reject
             | d # ds \<Rightarrow>
                 if d = 0x7D then Accept (JObject []) ds
                 else parse_members num n (d # ds) [])
          else if c = 0x22 then
            (case parse_chars [] cs of
               None \<Rightarrow> Reject
             | Some (str, r) \<Rightarrow> Accept (JString str) r)
          else if c = 0x2D \<or> is_digit c then
            (case lex_number (c # cs) of
               None \<Rightarrow> Reject
             | Some (lexeme, r) \<Rightarrow> Accept (JNumber (num lexeme)) r)
          else if take 4 (c # cs) = js ''true'' then Accept (JBool True) (drop 4 (c # cs))
          else if take 5 (c # cs) = js ''false'' then Accept (JBool False) (drop 5 (c # cs))
          else if take 4 (c # cs) = js ''null'' then Accept JNull (drop 4 (c # cs))
          else Reject)"
| "parse_elements num 0 s acc = OutOfFuel"
| "parse_elements num (Suc n) s acc =
     (case parse_value num n s of
        OutOfFuel \<Rightarrow> OutOfFuel
      | Reject \<Rightarrow> Reject
      | Accept v r \<Rightarrow>
          (case skip_ws r of
             [] \<Rightarrow> Reject
           | c # cs \<Rightarrow>
               if c = 0x2C then parse_elements num n cs (acc @ [v])
               else if c = 0x5D then Accept (JArray (acc @ [v])) cs
               else Reject))"
| "parse_members num 0 s acc = OutOfFuel"
| "parse_members num (Suc n) s acc =
     (case skip_ws s of
        [] \<Rightarrow> Reject
      | q # qs \<Rightarrow>
          if q = 0x22 then
            (case parse_chars [] qs of
               None \<Rightarrow> Reject
             | Some (k, r) \<Rightarrow>
                 (case skip_ws r of
                    [] \<Rightarrow> Reject
                  | d # ds \<Rightarrow>
                      if d = 0x3A then
                        (case parse_value num n ds of
                           OutOfFuel \<Rightarrow> OutOfFuel
                         | Reject \<Rightarrow> Reject
                         | Accept v r2 \<Rightarrow>
                             (case skip_ws r2 of
                                [] \<Rightarrow> Reject
                              | c # cs \<Rightarrow>
                                  if c = 0x2C then
                                    parse_members num n cs (CreateDataProperty acc k v)
                                  else if c = 0x7D then
                                    Accept (JObject (CreateDataProperty acc k v)) cs
                                  else Reject))
                      else Reject))
          else Reject)"

definition JSON_parse :: "(jsstring \<Rightarrow> 'n) \<Rightarrow> jsstring \<Rightarrow> js_error + 'n json" where
  "JSON_parse num text =
     (case parse_value num (2 * length text + 1) text of
        Accept v r \<Rightarrow> if skip_ws r = [] then Inr v else Inl SyntaxError
      | Reject \<Rightarrow> Inl SyntaxError
      | OutOfFuel \<Rightarrow> Inl SyntaxError)"

section \<open>The component App\<close>

subsection \<open>State and the outside world\<close>

text \<open>
  The seven \<open>useState\<close> cells of \<open>App\<close>, together with what the handlers act on outside
  the component: the contents of AsyncStorage and the list of calls made to AsyncStorage
  and to \<open>fetch\<close>, in the order they were issued.
\<close>

datatype io_call =
    GetItem jsstring
  | SetItem jsstring jsstring
  | RemoveItem jsstring
  | Fetch jsstring

record 'n app =
  joke :: "'n json"
  jokeError :: jsstring
  jokeLoading :: bool
  noteInput :: jsstring
  "notes" :: "'n json list"
  notesError :: jsstring
  notesLoading :: bool
  storage :: "jsstring \<rightharpoonup> jsstring"
  calls :: "io_call list"

definition JOKE_API_URL :: jsstring where
  "JOKE_API_URL = js ''https://official-joke-api.appspot.com/random_joke''"

definition NOTES_KEY :: jsstring where
  "NOTES_KEY = js ''notes''"

text \<open>The state of the first render, over the storage contents found on the device.\<close>

definition App_initial :: "(jsstring \<rightharpoonup> jsstring) \<Rightarrow> 'n app" where
  "App_initial st =
     \<lparr>joke = JNull, jokeError = [], jokeLoading = False,
      noteInput = [], notes = [], notesError = [], notesLoading = True,
      storage = st, calls = []\<rparr>"

subsection \<open>Statements that may throw\<close>

text \<open>
  A statement runs on a state and completes normally with a value (\<open>Inr\<close>) or abruptly
  with a thrown error (\<open>Inl\<close>); the state changes made before a throw stay. An \<open>async\<close>
  function is run to its settlement: its result is \<open>Inl\<close> when the promise it returns is
  rejected. Handlers run one at a time; two handlers in flight at once are not described
  here.
\<close>

type_synonym ('n, 'a) io = "'n app \<Rightarrow> (js_error + 'a) \<times> 'n app"

definition return :: "'a \<Rightarrow> ('n, 'a) io" where
  "return v = (\<lambda>s. (Inr v, s))"

definition throw :: "js_error \<Rightarrow> ('n, 'a) io" where
  "throw e = (\<lambda>s. (Inl e, s))"

definition bind :: "('n, 'a) io \<Rightarrow> ('a \<Rightarrow> ('n, 'b) io) \<Rightarrow> ('n, 'b) io" where
  "bind m f = (\<lambda>s. case m s of (Inl e, s') \<Rightarrow> (Inl e, s') | (Inr v, s') \<Rightarrow> f v s')"

definition seq :: "('n, unit) io \<Rightarrow> ('n, 'b) io \<Rightarrow> ('n, 'b) io" where
  "seq m k = bind m (\<lambda>_. k)"

definition try_catch :: "('n, 'a) io \<Rightarrow> (js_error \<Rightarrow> ('n, 'a) io) \<Rightarrow> ('n, 'a) io" where
  "try_catch m h = (\<lambda>s. case m s of (Inl e, s') \<Rightarrow> h e s' | (Inr v, s') \<Rightarrow> (Inr v, s'))"

definition try_finally :: "('n, 'a) io \<Rightarrow> ('n, unit) io \<Rightarrow> ('n, 'a) io" where
  "try_finally m f =
     (\<lambda>s. case m s of
            (r, s') \<Rightarrow> (case f s' of (Inl e, s'') \<Rightarrow> (Inl e, s'') | (Inr _, s'') \<Rightarrow> (r, s'')))"

definition try_catch_finally ::
  "('n, 'a) io \<Rightarrow> (js_error \<Rightarrow> ('n, 'a) io) \<Rightarrow> ('n, unit) io \<Rightarrow> ('n, 'a) io" where
  "try_catch_finally m h f = try_finally (try_catch m h) f"

text \<open>The state setters returned by \<open>useState\<close>.\<close>

definition setJoke :: "'n json \<Rightarrow> ('n, unit) io" where
  "setJoke v = (\<lambda>s. (Inr (), s\<lparr>joke := v\<rparr>))"

definition setJokeError :: "jsstring \<Rightarrow> ('n, unit) io" where
  "setJokeError v = (\<lambda>s. (Inr (), s\<lparr>jokeError := v\<rparr>))"

definition setJokeLoading :: "bool \<Rightarrow> ('n, unit) io" where
  "setJokeLoading v = (\<lambda>s. (Inr (), s\<lparr>jokeLoading := v\<rparr>))"

definition setNoteInput :: "jsstring \<Rightarrow> ('n, unit) io" where
  "setNoteInput v = (\<lambda>s. (Inr (), s\<lparr>noteInput := v\<rparr>))"

definition setNotes :: "'n json list \<Rightarrow> ('n, unit) io" where
  "setNotes v = (\<lambda>s. (Inr (), s\<lparr>notes := v\<rparr>))"

definition setNotesError :: "jsstring \<Rightarrow> ('n, unit) io" where
  "setNotesError v = (\<lambda>s. (Inr (), s\<lparr>notesError := v\<rparr>))"

definition setNotesLoading :: "bool \<Rightarrow> ('n, unit) io" where
  "setNotesLoading v = (\<lambda>s. (Inr (), s\<lparr>notesLoading := v\<rparr>))"

subsection \<open>AsyncStorage and fetch\<close>

text \<open>
  Whether a call to the device or to the network fails is not decided by the program: each
  call takes its outcome as an argument, \<open>Some e\<close> when the promise is rejected with \<open>e\<close>.
  A rejected storage call leaves the stored contents as they were. Every call is recorded
  in \<open>calls\<close> with the arguments it was given.
\<close>

definition AsyncStorage_getItem :: "js_error option \<Rightarrow> jsstring \<Rightarrow> ('n, jsstring option) io" where
  "AsyncStorage_getItem fault key =
     (\<lambda>s. case fault of
            Some e \<Rightarrow> (Inl e, s\<lparr>calls := calls s @ [GetItem key]\<rparr>)
          | None \<Rightarrow> (Inr (storage s key), s\<lparr>calls := calls s @ [GetItem key]\<rparr>))"

definition AsyncStorage_setItem :: "js_error option \<Rightarrow> jsstring \<Rightarrow> jsstring \<Rightarrow> ('n, unit) io" where
  "AsyncStorage_setItem fault key v =
     (\<lambda>s. case fault of
            Some e \<Rightarrow> (Inl e, s\<lparr>calls := calls s @ [SetItem key v]\<rparr>)
          | None \<Rightarrow>
              (Inr (), s\<lparr>storage := (storage s)(key \<mapsto> v), calls := calls s @ [SetItem key v]\<rparr>))"

definition AsyncStorage_removeItem :: "js_error option \<Rightarrow> jsstring \<Rightarrow> ('n, unit) io" where
  "AsyncStorage_removeItem fault key =
     (\<lambda>s. case fault of
            Some e \<Rightarrow> (Inl e, s\<lparr>calls := calls s @ [RemoveItem key]\<rparr>)
          | None \<Rightarrow>
              (Inr (), s\<lparr>storage := (storage s)(key := None), calls := calls s @ [RemoveItem key]\<rparr>))"

text \<open>
  A response has its \<open>ok\<close> flag and the outcome of reading its body as text;
  \<open>response.json()\<close> reads the body and parses it. The outcome of \<open>fetch\<close> is the error
  of a transport failure or a response.
\<close>

record response =
  ok :: bool
  body :: "js_error + jsstring"

definition fetch :: "js_error + response \<Rightarrow> jsstring \<Rightarrow> ('n, response) io" where
  "fetch outcome url = (\<lambda>s. (outcome, s\<lparr>calls := calls s @ [Fetch url]\<rparr>))"

definition response_json :: "(jsstring \<Rightarrow> 'n) \<Rightarrow> response \<Rightarrow> ('n, 'n json) io" where
  "response_json num r =
     (case body r of
        Inl e \<Rightarrow> throw e
      | Inr text \<Rightarrow> (case JSON_parse num text of Inl e \<Rightarrow> throw e | Inr v \<Rightarrow> return v))"

subsection \<open>The handlers of App.js\<close>

text \<open>\<open>loadNotes\<close>, run once by the effect of the first render (lines 27 to 48).\<close>

definition loadNotes :: "(jsstring \<Rightarrow> 'n) \<Rightarrow> js_error option \<Rightarrow> ('n, unit) io" where
  "loadNotes num fault =
     try_catch_finally
       (bind (AsyncStorage_getItem fault NOTES_KEY) (\<lambda>stored.
          case stored of
            None \<Rightarrow> return ()
          | Some text \<Rightarrow>
              if text \<noteq> [] then
                (case JSON_parse num text of
                   Inl e \<Rightarrow> throw e
                 | Inr parsed \<Rightarrow>
                     if isArray parsed then setNotes (elements parsed)
                     else seq (setNotesError (js ''Saved notes are corrupted'')) (setNotes []))
              else return ()))
       (\<lambda>error. setNotesError (js ''Failed to load notes''))
       (setNotesLoading False)"

text \<open>
  \<open>handleFetchJoke\<close> (lines 50 to 65). \<open>handleFetchJoke_begin\<close> is what runs before the
  request is issued; the rest is the \<open>try\<close> statement.
\<close>

definition handleFetchJoke_begin :: "('n, unit) io" where
  "handleFetchJoke_begin = seq (setJokeError []) (setJokeLoading True)"

definition handleFetchJoke_try :: "(jsstring \<Rightarrow> 'n) \<Rightarrow> js_error + response \<Rightarrow> ('n, unit) io" where
  "handleFetchJoke_try num outcome =
     try_catch_finally
       (bind (fetch outcome JOKE_API_URL) (\<lambda>response.
          if \<not> ok response then throw (Error (js ''Network response was not ok''))
          else bind (response_json num response) (\<lambda>data. setJoke data)))
       (\<lambda>error. setJokeError (js ''Could not fetch a joke. Please try again.''))
       (setJokeLoading False)"

definition handleFetchJoke :: "(jsstring \<Rightarrow> 'n) \<Rightarrow> js_error + response \<Rightarrow> ('n, unit) io" where
  "handleFetchJoke num outcome = seq handleFetchJoke_begin (handleFetchJoke_try num outcome)"

text \<open>\<open>saveNotes\<close> (lines 67 to 73).\<close>

definition saveNotes :: "('n \<Rightarrow> jsstring) \<Rightarrow> js_error option \<Rightarrow> 'n json list \<Rightarrow> ('n, unit) io" where
  "saveNotes nstr fault updatedNotes =
     try_catch
       (AsyncStorage_setItem fault NOTES_KEY (JSON_stringify nstr (JArray updatedNotes)))
       (\<lambda>error. setNotesError (js ''Failed to save notes''))"

text \<open>
  \<open>handleAddNote\<close> (lines 75 to 87). \<open>noteInput\<close> and \<open>notes\<close> are the values of the render
  the handler was created in.
\<close>

definition handleAddNote :: "('n \<Rightarrow> jsstring) \<Rightarrow> js_error option \<Rightarrow> ('n, unit) io" where
  "handleAddNote nstr fault =
     (\<lambda>s. let trimmed = trim (noteInput s) in
          if trimmed = [] then return () s
          else
            (let updatedNotes = notes s @ [JString trimmed] in
             seq (setNotes updatedNotes)
               (seq (setNoteInput [])
                 (seq (setNotesError [])
                   (saveNotes nstr fault updatedNotes)))) s)"

text \<open>\<open>handleClearNotes\<close> (lines 89 to 98).\<close>

definition handleClearNotes :: "js_error option \<Rightarrow> ('n, unit) io" where
  "handleClearNotes fault =
     seq (setNotes [])
       (seq (setNotesError [])
         (try_catch
            (AsyncStorage_removeItem fault NOTES_KEY)
            (\<lambda>error. setNotesError (js ''Failed to clear notes''))))"

subsection \<open>What is rendered\<close>

text \<open>
  The conditional children of the joke section (lines 116 to 123). The joke card carries
  the two values it puts inside its \<open>Text\<close> elements.

  React accepts as a child \<open>undefined\<close>, \<open>null\<close>, a boolean, a string, a number, and an array
  of such children; for an object that is not an element it throws (\<open>Objects are not valid
  as a React child\<close>). \<open>App\<close> has no error boundary, so a render that throws shows nothing:
  \<open>render_joke\<close> is then \<open>Inl\<close>.
\<close>

datatype 'n element =
    ActivityIndicator
  | ErrorText jsstring
  | JokeCard "'n json option" "'n json option"

fun is_JokeCard :: "'n element \<Rightarrow> bool" where
  "is_JokeCard (JokeCard a b) = True"
| "is_JokeCard x = False"

fun valid_child :: "'n json \<Rightarrow> bool" where
  "valid_child (JObject ms) = False"
| "valid_child (JArray xs) = list_all valid_child xs"
| "valid_child v = True"

fun Text_child :: "'n json option \<Rightarrow> js_error + 'n json option" where
  "Text_child None = Inr None"
| "Text_child (Some v) =
     (if valid_child v then Inr (Some v)
      else Inl (Error (js ''Objects are not valid as a React child'')))"

definition render_joke :: "('n \<Rightarrow> bool) \<Rightarrow> 'n app \<Rightarrow> js_error + 'n element list" where
  "render_joke nb s =
     (case (if truthy nb (joke s) \<and> \<not> jokeLoading s
            then (case Text_child (get_property (joke s) (js ''setup'')) of
                    Inl e \<Rightarrow> Inl e
                  | Inr a \<Rightarrow>
                      (case Text_child (get_property (joke s) (js ''punchline'')) of
                         Inl e \<Rightarrow> Inl e
                       | Inr b \<Rightarrow> Inr [JokeCard a b]))
            else Inr []) of
        Inl e \<Rightarrow> Inl e
      | Inr jokeCard \<Rightarrow>
          Inr ((if jokeLoading s then [ActivityIndicator] else []) @
               (if jokeError s \<noteq> [] then [ErrorText (jokeError s)] else []) @
               jokeCard))"

text \<open>
  The first render and its effect (\<open>useEffect\<close> with an empty dependency list): the state
  once \<open>loadNotes\<close> has settled.
\<close>

definition App_mounted :: "(jsstring \<Rightarrow> 'n) \<Rightarrow> js_error option \<Rightarrow> (jsstring \<rightharpoonup> jsstring) \<Rightarrow> 'n app" where
  "App_mounted num fault st = snd (loadNotes num fault (App_initial st))"

section \<open>Properties of the string and JSON operations\<close>

subsection \<open>Hexadecimal escapes\<close>

lemma unat_nibbles:
  fixes w :: jschar
  shows "unat (take_bit 4 w) = unat w mod 16"
    and "unat (drop_bit 12 w) = unat w div 4096"
    and "unat (drop_bit 8 w) = unat w div 256"
    and "unat (drop_bit 4 w) = unat w div 16"
  by (simp_all add: take_bit_eq_mod drop_bit_eq_div unat_mod_distrib unat_div_distrib)

lemma take_bit4_less: "take_bit 4 (w :: jschar) < 16"
  by (simp add: word_less_nat_alt unat_nibbles del: take_bit_eq_mod)

lemma top_nibble_less: "drop_bit 12 (w :: jschar) < 16"
proof -
  have "unat w < 2 ^ 16" using unsigned_less [of w] by simp
  then have "unat w div 4096 < 16" by simp
  then show ?thesis
    by (simp only: word_less_nat_alt unat_nibbles) simp
qed

lemma nat_nibbles: "((n div 4096 * 16 + n div 256 mod 16) * 16 + n div 16 mod 16) * 16 + n mod 16 = (n::nat)"
proof -
  have "n div 4096 = n div 256 div 16" "n div 256 = n div 16 div 16"
    by (simp_all add: div_mult2_eq [symmetric])
  then have a: "n div 4096 * 16 + n div 256 mod 16 = n div 256"
    and b: "n div 256 * 16 + n div 16 mod 16 = n div 16"
    by simp_all
  show ?thesis unfolding a b by simp
qed

lemma nibble_cases:
  fixes d :: jschar
  assumes "d < 16"
  shows "d \<in> {0,1,2,3,4,5,6,7,8,9,10,11,12,13,14,15}"
proof -
  have "unat d < 16" using assms by (simp add: word_less_nat_alt)
  then have "unat d \<in> {0,1,2,3,4,5,6,7,8,9,10,11,12,13,14,15}" by (simp; arith)
  then have "of_nat (unat d) \<in> (of_nat ` {0,1,2,3,4,5,6,7,8,9,10,11,12,13,14,15} :: jschar set)"
    by (rule imageI)
  then show ?thesis by simp
qed

lemma hex_value_hex_digit:
  assumes "d < 16" shows "hex_value (hex_digit d) = Some d"
proof -
  have "\<forall>x \<in> {0,1,2,3,4,5,6,7,8,9,10,11,12,13,14,15::jschar}. hex_value (hex_digit x) = Some x"
    by (simp add: hex_value_def hex_digit_def)
  then show ?thesis using nibble_cases [OF assms] by blast
qed

lemma hex4_UnicodeEscape:
  "hex4 (hex_digit (drop_bit 12 c)) (hex_digit (take_bit 4 (drop_bit 8 c)))
        (hex_digit (take_bit 4 (drop_bit 4 c))) (hex_digit (take_bit 4 c)) = Some c"
proof -
  let ?n = "unat c"
  have v: "hex_value (hex_digit (drop_bit 12 c)) = Some (drop_bit 12 c)"
       "hex_value (hex_digit (take_bit 4 (drop_bit 8 c))) = Some (take_bit 4 (drop_bit 8 c))"
       "hex_value (hex_digit (take_bit 4 (drop_bit 4 c))) = Some (take_bit 4 (drop_bit 4 c))"
       "hex_value (hex_digit (take_bit 4 c)) = Some (take_bit 4 c)"
    by (rule hex_value_hex_digit, rule top_nibble_less take_bit4_less)+
  have d: "unat (drop_bit 12 c) = ?n div 4096"
          "unat (take_bit 4 (drop_bit 8 c)) = ?n div 256 mod 16"
          "unat (take_bit 4 (drop_bit 4 c)) = ?n div 16 mod 16"
          "unat (take_bit 4 c) = ?n mod 16"
    by (simp_all only: unat_nibbles)
  have e: "\<And>w :: jschar. w = of_nat (unat w)" by simp
  have "((drop_bit 12 c * 16 + take_bit 4 (drop_bit 8 c)) * 16 + take_bit 4 (drop_bit 4 c)) * 16
          + take_bit 4 c
        = (of_nat (((?n div 4096 * 16 + ?n div 256 mod 16) * 16 + ?n div 16 mod 16) * 16 + ?n mod 16) :: jschar)"
    apply (subst (1) e [of "drop_bit 12 c"])
    apply (subst (1) e [of "take_bit 4 (drop_bit 8 c)"])
    apply (subst (1) e [of "take_bit 4 (drop_bit 4 c)"])
    apply (subst (1) e [of "take_bit 4 c"])
    apply (simp only: d of_nat_add of_nat_mult of_nat_numeral)
    done
  also have "\<dots> = c" unfolding nat_nibbles by simp
  finally show ?thesis by (simp only: hex4_def v prod.case option.case)
qed

subsection \<open>String literals\<close>

lemma surrogate_plain:
  assumes "is_leading_surrogate c \<or> is_trailing_surrogate c"
  shows "c \<noteq> 0x22" "c \<noteq> 0x5C" "\<not> c < 0x20"
proof -
  have "0xD800 \<le> unat c" using assms
    by (auto simp: is_leading_surrogate_def is_trailing_surrogate_def word_le_nat_alt)
  then show "c \<noteq> 0x22" "c \<noteq> 0x5C" "\<not> c < 0x20"
    by (auto simp: word_less_nat_alt)
qed

lemma parse_chars_UnicodeEscape:
  "parse_chars acc (UnicodeEscape c @ r) = parse_chars (acc @ [c]) r"
  by (simp add: UnicodeEscape_def hex4_UnicodeEscape)

lemma parse_chars_plain:
  "c \<noteq> 0x22 \<Longrightarrow> c \<noteq> 0x5C \<Longrightarrow> \<not> c < 0x20 \<Longrightarrow>
   parse_chars acc (c # r) = parse_chars (acc @ [c]) r"
  by simp

lemma unescape_not_u: "unescape e = Some u \<Longrightarrow> e \<noteq> 0x75"
  by (rule notI) (simp add: unescape_def)

lemma parse_chars_escaped:
  "unescape e = Some u \<Longrightarrow> parse_chars acc (0x5C # e # r) = parse_chars (acc @ [u]) r"
  using unescape_not_u [of e u] by simp

lemma quote_chars_short:
  "quote_chars (0x08 # cs) = [0x5C, 0x62] @ quote_chars cs"
  "quote_chars (0x09 # cs) = [0x5C, 0x74] @ quote_chars cs"
  "quote_chars (0x0A # cs) = [0x5C, 0x6E] @ quote_chars cs"
  "quote_chars (0x0C # cs) = [0x5C, 0x66] @ quote_chars cs"
  "quote_chars (0x0D # cs) = [0x5C, 0x72] @ quote_chars cs"
  "quote_chars (0x22 # cs) = [0x5C, 0x22] @ quote_chars cs"
  "quote_chars (0x5C # cs) = [0x5C, 0x5C] @ quote_chars cs"
  by simp_all

lemma unescape_short:
  "unescape 0x62 = Some 0x08" "unescape 0x74 = Some 0x09" "unescape 0x6E = Some 0x0A"
  "unescape 0x66 = Some 0x0C" "unescape 0x72 = Some 0x0D" "unescape 0x22 = Some 0x22"
  "unescape 0x5C = Some 0x5C"
  by (simp_all add: unescape_def)

lemma parse_chars_quote_chars:
  "parse_chars acc (quote_chars s @ 0x22 # r) = Some (acc @ s, r)"
proof (induction s arbitrary: acc rule: quote_chars.induct)
  case 1
  show ?case by simp
next
  case (2 c cs)
  note parse_chars.simps [simp del] quote_chars.simps [simp del]
  consider (short) "c = 0x08 \<or> c = 0x09 \<or> c = 0x0A \<or> c = 0x0C \<or> c = 0x0D \<or> c = 0x22 \<or> c = 0x5C"
    | (control) "\<not> (c = 0x08 \<or> c = 0x09 \<or> c = 0x0A \<or> c = 0x0C \<or> c = 0x0D \<or> c = 0x22 \<or> c = 0x5C)" "c < 0x20"
    | (lead) "\<not> (c = 0x08 \<or> c = 0x09 \<or> c = 0x0A \<or> c = 0x0C \<or> c = 0x0D \<or> c = 0x22 \<or> c = 0x5C)" "\<not> c < 0x20"
        "is_leading_surrogate c"
    | (trail) "\<not> (c = 0x08 \<or> c = 0x09 \<or> c = 0x0A \<or> c = 0x0C \<or> c = 0x0D \<or> c = 0x22 \<or> c = 0x5C)" "\<not> c < 0x20"
        "\<not> is_leading_surrogate c" "is_trailing_surrogate c"
    | (plain) "\<not> (c = 0x08 \<or> c = 0x09 \<or> c = 0x0A \<or> c = 0x0C \<or> c = 0x0D \<or> c = 0x22 \<or> c = 0x5C)" "\<not> c < 0x20"
        "\<not> is_leading_surrogate c" "\<not> is_trailing_surrogate c"
    by blast
  then show ?case
  proof cases
    case short
    then consider "c = 0x08" | "c = 0x09" | "c = 0x0A" | "c = 0x0C" | "c = 0x0D" | "c = 0x22" | "c = 0x5C"
      by blast
    then show ?thesis
    proof cases
      case 1 then show ?thesis using "2.IH"(1) [of "acc @ [c]"]
        by (simp add: quote_chars_short parse_chars_escaped [OF unescape_short(1)])
    next
      case 2 then show ?thesis using "2.IH"(2) [of "acc @ [c]"]
        by (simp add: quote_chars_short parse_chars_escaped [OF unescape_short(2)])
    next
      case 3 then show ?thesis using "2.IH"(3) [of "acc @ [c]"]
        by (simp add: quote_chars_short parse_chars_escaped [OF unescape_short(3)])
    next
      case 4 then show ?thesis using "2.IH"(4) [of "acc @ [c]"]
        by (simp add: quote_chars_short parse_chars_escaped [OF unescape_short(4)])
    next
      case 5 then show ?thesis using "2.IH"(5) [of "acc @ [c]"]
        by (simp add: quote_chars_short parse_chars_escaped [OF unescape_short(5)])
    next
      case 6 then show ?thesis using "2.IH"(6) [of "acc @ [c]"]
        by (simp add: quote_chars_short parse_chars_escaped [OF unescape_short(6)])
    next
      case 7 then show ?thesis using "2.IH"(7) [of "acc @ [c]"]
        by (simp add: quote_chars_short parse_chars_escaped [OF unescape_short(7)])
    qed
  next
    case control
    then show ?thesis using "2.IH"(8) [of "acc @ [c]"]
      by (simp add: quote_chars.simps parse_chars_UnicodeEscape)
  next
    case lead
    show ?thesis
    proof (cases cs)
      case Nil
      with lead show ?thesis
        by (simp add: quote_chars.simps parse_chars_UnicodeEscape parse_chars.simps)
    next
      case (Cons d ds)
      show ?thesis
      proof (cases "is_trailing_surrogate d")
        case True
        with lead Cons "2.IH"(9) [of d ds "acc @ [c, d]"] show ?thesis
          by (simp add: quote_chars.simps parse_chars_plain surrogate_plain)
      next
        case False
        with lead Cons "2.IH"(10) [of d ds "acc @ [c]"] show ?thesis
          by (simp add: quote_chars.simps parse_chars_UnicodeEscape)
      qed
    qed
  next
    case trail
    then show ?thesis using "2.IH"(11) [of "acc @ [c]"]
      by (simp add: quote_chars.simps parse_chars_UnicodeEscape)
  next
    case plain
    then show ?thesis using "2.IH"(12) [of "acc @ [c]"]
      by (simp add: quote_chars.simps parse_chars_plain)
  qed
qed

subsection \<open>Arrays of strings\<close>

lemma skip_ws_quote [simp]: "skip_ws (0x22 # r) = 0x22 # r"
  by (simp add: skip_ws_def is_json_ws_def)

lemma skip_ws_separators [simp]:
  "skip_ws (0x2C # r) = 0x2C # r" "skip_ws (0x5D # r) = 0x5D # r" "skip_ws (0x5B # r) = 0x5B # r"
  by (simp_all add: skip_ws_def is_json_ws_def)

lemma parse_value_string:
  "parse_value num (Suc n) (QuoteJSONString s @ r) = Accept (JString s) r"
  by (simp add: QuoteJSONString_def parse_chars_quote_chars)

lemma parse_elements_last:
  "parse_elements num (Suc (Suc m)) (QuoteJSONString x @ 0x5D # r) acc =
     Accept (JArray (acc @ [JString x])) r"
  by (simp add: parse_value_string del: parse_value.simps)

lemma parse_elements_more:
  "parse_elements num (Suc (Suc m)) (QuoteJSONString x @ 0x2C # r) acc =
     parse_elements num (Suc m) r (acc @ [JString x])"
  by (simp add: parse_value_string del: parse_value.simps)

lemma SerializeJSONArray_strings_Cons:
  "SerializeJSONArray nstr (JString x # map JString xs) =
     QuoteJSONString x @ (if xs = [] then [] else 0x2C # SerializeJSONArray nstr (map JString xs))"
  by (cases xs) (simp_all add: js_def)

lemma parse_elements_strings:
  "length xs < n \<Longrightarrow> xs \<noteq> [] \<Longrightarrow>
   parse_elements num n (SerializeJSONArray nstr (map JString xs) @ 0x5D # r) acc =
     Accept (JArray (acc @ map JString xs)) r"
proof (induction xs arbitrary: n acc)
  case Nil
  then show ?case by simp
next
  case (Cons x xs)
  note parse_elements.simps [simp del] parse_value.simps [simp del] SerializeJSONArray.simps [simp del]
  from Cons.prems obtain m where n: "n = Suc (Suc m)" and m: "length xs \<le> m"
    by (cases n; cases "n - 1") auto
  show ?case
  proof (cases "xs = []")
    case True
    then show ?thesis
      by (simp add: n SerializeJSONArray.simps parse_elements_last)
  next
    case False
    have "parse_elements num (Suc m) (SerializeJSONArray nstr (map JString xs) @ 0x5D # r) (acc @ [JString x])
          = Accept (JArray ((acc @ [JString x]) @ map JString xs)) r"
      using m False by (intro Cons.IH) simp_all
    then show ?thesis
      using False
      by (simp add: n SerializeJSONArray_strings_Cons parse_elements_more)
  qed
qed

lemma length_SerializeJSONArray_strings:
  "length xs \<le> length (SerializeJSONArray nstr (map JString xs))"
proof (induction xs)
  case Nil
  show ?case by simp
next
  case (Cons x xs)
  then show ?case
    by (simp add: SerializeJSONArray_strings_Cons QuoteJSONString_def del: SerializeJSONArray.simps)
qed

lemma parse_value_empty_array:
  "parse_value num (Suc n) (0x5B # 0x5D # r) = Accept (JArray []) r"
  by simp

lemma parse_value_array:
  "parse_value num (Suc n) (0x5B # 0x22 # r) = parse_elements num n (0x22 # r) []"
  by simp

lemma JSON_roundtrip:
  "JSON_parse num (JSON_stringify nstr (JArray (map JString xs))) = Inr (JArray (map JString xs))"
proof -
  note parse_elements.simps [simp del] parse_value.simps [simp del] SerializeJSONArray.simps [simp del]
  let ?body = "SerializeJSONArray nstr (map JString xs)"
  let ?text = "JSON_stringify nstr (JArray (map JString xs))"
  have shape: "?text = 0x5B # ?body @ [0x5D]" by (simp add: js_def)
  have "parse_value num (Suc (2 * length ?text)) ?text = Accept (JArray (map JString xs)) []"
  proof (cases xs)
    case Nil
    then show ?thesis
      using parse_value_empty_array [of num 4 "[]"]
      by (simp add: js_def SerializeJSONArray.simps)
  next
    case (Cons y ys)
    obtain b where body: "?body = 0x22 # b"
      by (simp add: Cons SerializeJSONArray_strings_Cons QuoteJSONString_def)
    have fuel: "length xs < 2 * length ?text"
      using length_SerializeJSONArray_strings [of xs nstr] by (simp add: js_def)
    have "parse_elements num (2 * length ?text) (?body @ 0x5D # []) [] = Accept (JArray ([] @ map JString xs)) []"
      using fuel Cons by (intro parse_elements_strings) simp_all
    then have "parse_elements num (2 * length ?text) (0x22 # b @ [0x5D]) [] = Accept (JArray (map JString xs)) []"
      by (simp add: body)
    then show ?thesis
      by (simp only: shape body append_Cons parse_value_array)
  qed
  then show ?thesis
    by (simp add: JSON_parse_def skip_ws_def del: JSON_stringify.simps)
qed

subsection \<open>The parser consumes input and stays within its bound\<close>

lemma length_skip_ws: "length (skip_ws s) \<le> length s"
  by (simp add: skip_ws_def length_dropWhile_le)

lemma skip_ws_Cons_length: "skip_ws s = c # cs \<Longrightarrow> length cs < length s"
  using length_skip_ws [of s] by simp

lemma parse_chars_length: "parse_chars acc s = Some (str, r) \<Longrightarrow> length r < length s"
proof (induction acc s rule: parse_chars.induct)
  case (1 acc)
  then show ?case by simp
next
  case (2 acc c cs)
  show ?case
  proof (cases "c = 0x22")
    case True
    with "2.prems" show ?thesis by simp
  next
    case q: False
    show ?thesis
    proof (cases "c = 0x5C")
      case True
      show ?thesis
      proof (cases cs)
        case Nil
        with "2.prems" q True show ?thesis by simp
      next
        case (Cons e es)
        show ?thesis
        proof (cases "e = 0x75")
          case u: True
          from "2.prems" q True Cons u obtain h1 h2 h3 h4 r' w where
            es: "es = h1 # h2 # h3 # h4 # r'" and h: "hex4 h1 h2 h3 h4 = Some w"
            and p: "parse_chars (acc @ [w]) r' = Some (str, r)"
            by (auto split: list.splits option.splits)
          from "2.IH"(1) [OF q True Cons u es _ _ _ h p] have "length r < length r'"
            by simp
          then show ?thesis by (simp add: Cons es)
        next
          case u: False
          from "2.prems" q True Cons u obtain w where h: "unescape e = Some w"
            and p: "parse_chars (acc @ [w]) es = Some (str, r)"
            by (auto split: option.splits)
          from "2.IH"(2) [OF q True Cons u h p] show ?thesis by (simp add: Cons)
        qed
      qed
    next
      case False
      with "2.prems" q have c: "\<not> c < 0x20" and p: "parse_chars (acc @ [c]) cs = Some (str, r)"
        by (auto split: if_splits)
      from "2.IH"(3) [OF q False c p] show ?thesis by simp
    qed
  qed
qed

lemma lex_int_length: "lex_int s = Some (l, r) \<Longrightarrow> length r < length s"
  using length_dropWhile_le [of is_digit "tl s"]
  by (auto simp: lex_int_def split: list.splits if_splits)

lemma lex_frac_length: "lex_frac s = Some (l, r) \<Longrightarrow> length r \<le> length s"
  using length_dropWhile_le [of is_digit "tl s"]
  by (auto simp: lex_frac_def split: list.splits if_splits)

lemma lex_sign_length: "lex_sign s = (l, r) \<Longrightarrow> length r \<le> length s"
  by (auto simp: lex_sign_def split: list.splits if_splits)

lemma lex_exp_length: "lex_exp s = Some (l, r) \<Longrightarrow> length r \<le> length s"
proof (cases s)
  case Nil
  assume "lex_exp s = Some (l, r)"
  with Nil show ?thesis by (simp add: lex_exp_def)
next
  case (Cons c cs)
  assume a: "lex_exp s = Some (l, r)"
  obtain sg ds where sg: "lex_sign cs = (sg, ds)" by (cases "lex_sign cs")
  have "length (dropWhile is_digit ds) \<le> length cs"
    using lex_sign_length [OF sg] length_dropWhile_le [of is_digit ds] by simp
  with a Cons sg show ?thesis
    by (auto simp: lex_exp_def split: if_splits)
qed

lemma lex_number_length: "lex_number s = Some (l, r) \<Longrightarrow> length r < length s"
proof -
  assume a: "lex_number s = Some (l, r)"
  define s1 where "s1 = snd (case s of [] \<Rightarrow> ([], s) | c # cs \<Rightarrow> if c = 0x2D then ([c], cs) else ([], s))"
  have s1: "length s1 \<le> length s" by (auto simp: s1_def split: list.splits)
  from a obtain ip s2 fp s3 ep where
    i: "lex_int s1 = Some (ip, s2)" and f: "lex_frac s2 = Some (fp, s3)"
    and e: "lex_exp s3 = Some (ep, r)"
    by (auto simp: lex_number_def s1_def split: prod.splits option.splits)
  show ?thesis
    using s1 lex_int_length [OF i] lex_frac_length [OF f] lex_exp_length [OF e] by linarith
qed

lemma parse_progress:
  "(\<forall>s v r. parse_value num n s = Accept v r \<longrightarrow> length r < length s) \<and>
   (\<forall>s acc v r. parse_elements num n s acc = Accept v r \<longrightarrow> length r < length s) \<and>
   (\<forall>s acc v r. parse_members num n s acc = Accept v r \<longrightarrow> length r < length s)"
proof (induction n)
  case 0
  show ?case by simp
next
  case (Suc n)
  have V: "length r < length s" if asm: "parse_value num (Suc n) s = Accept v r" for s v r
  proof -
    obtain c cs where sk: "skip_ws s = c # cs"
      using asm by (cases "skip_ws s") simp_all
    have cs: "length cs < length s" using sk by (rule skip_ws_Cons_length)
    consider (arr) "c = 0x5B" | (obj) "c \<noteq> 0x5B" "c = 0x7B" | (str) "c \<noteq> 0x5B" "c \<noteq> 0x7B" "c = 0x22"
      | (num) "c \<noteq> 0x5B" "c \<noteq> 0x7B" "c \<noteq> 0x22" "c = 0x2D \<or> is_digit c"
      | (lit) "c \<noteq> 0x5B" "c \<noteq> 0x7B" "c \<noteq> 0x22" "\<not> (c = 0x2D \<or> is_digit c)"
      by blast
    then show ?thesis
    proof cases
      case arr
      obtain d ds where sk2: "skip_ws cs = d # ds"
        using asm sk arr by (cases "skip_ws cs") simp_all
      have ds: "length ds < length cs" using sk2 by (rule skip_ws_Cons_length)
      show ?thesis
      proof (cases "d = 0x5D")
        case True
        with asm sk arr sk2 have "r = ds" by simp
        with ds cs show ?thesis by simp
      next
        case False
        with asm sk arr sk2 have "parse_elements num n (d # ds) [] = Accept v r" by simp
        with Suc.IH have "length r < length (d # ds)" by blast
        with ds cs show ?thesis by simp
      qed
    next
      case obj
      obtain d ds where sk2: "skip_ws cs = d # ds"
        using asm sk obj by (cases "skip_ws cs") simp_all
      have ds: "length ds < length cs" using sk2 by (rule skip_ws_Cons_length)
      show ?thesis
      proof (cases "d = 0x7D")
        case True
        with asm sk obj sk2 have "r = ds" by simp
        with ds cs show ?thesis by simp
      next
        case False
        with asm sk obj sk2 have "parse_members num n (d # ds) [] = Accept v r" by simp
        with Suc.IH have "length r < length (d # ds)" by blast
        with ds cs show ?thesis by simp
      qed
    next
      case str
      with asm sk obtain str' where "parse_chars [] cs = Some (str', r)"
        by (auto split: option.splits)
      from parse_chars_length [OF this] cs show ?thesis by simp
    next
      case num
      with asm sk obtain l where "lex_number (c # cs) = Some (l, r)"
        by (auto split: option.splits)
      from lex_number_length [OF this] cs show ?thesis by simp
    next
      case lit
      with asm sk have "r = drop 4 (c # cs) \<or> r = drop 5 (c # cs)"
        by (auto split: if_splits)
      with cs show ?thesis by auto
    qed
  qed
  have E: "length r < length s" if asm: "parse_elements num (Suc n) s acc = Accept v r" for s acc v r
  proof -
    from asm obtain v1 r1 where pv: "parse_value num n s = Accept v1 r1"
      by (cases "parse_value num n s") simp_all
    with Suc.IH have r1: "length r1 < length s" by blast
    from asm pv obtain c cs where sk: "skip_ws r1 = c # cs"
      by (cases "skip_ws r1") simp_all
    have cs: "length cs < length r1" using sk by (rule skip_ws_Cons_length)
    show ?thesis
    proof (cases "c = 0x2C")
      case True
      with asm pv sk have "parse_elements num n cs (acc @ [v1]) = Accept v r" by simp
      with Suc.IH have "length r < length cs" by blast
      with cs r1 show ?thesis by simp
    next
      case False
      with asm pv sk have "r = cs" by (simp split: if_splits)
      with cs r1 show ?thesis by simp
    qed
  qed
  have M: "length r < length s" if asm: "parse_members num (Suc n) s acc = Accept v r" for s acc v r
  proof -
    from asm obtain q qs where sk: "skip_ws s = q # qs"
      by (cases "skip_ws s") simp_all
    have qs: "length qs < length s" using sk by (rule skip_ws_Cons_length)
    from asm sk have q: "q = 0x22" by (simp split: if_splits)
    from asm sk q obtain k r0 where pc: "parse_chars [] qs = Some (k, r0)"
      by (cases "parse_chars [] qs") auto
    have r0: "length r0 < length qs" using pc by (rule parse_chars_length)
    from asm sk q pc obtain d ds where sk2: "skip_ws r0 = d # ds"
      by (cases "skip_ws r0") simp_all
    have ds: "length ds < length r0" using sk2 by (rule skip_ws_Cons_length)
    from asm sk q pc sk2 have d: "d = 0x3A" by (simp split: if_splits)
    from asm sk q pc sk2 d obtain v1 r2 where pv: "parse_value num n ds = Accept v1 r2"
      by (cases "parse_value num n ds") simp_all
    with Suc.IH have r2: "length r2 < length ds" by blast
    from asm sk q pc sk2 d pv obtain c cs where sk3: "skip_ws r2 = c # cs"
      by (cases "skip_ws r2") simp_all
    have cs: "length cs < length r2" using sk3 by (rule skip_ws_Cons_length)
    show ?thesis
    proof (cases "c = 0x2C")
      case True
      with asm sk q pc sk2 d pv sk3
      have "parse_members num n cs (CreateDataProperty acc k v1) = Accept v r" by simp
      with Suc.IH have "length r < length cs" by blast
      with cs r2 ds r0 qs show ?thesis by simp
    next
      case False
      with asm sk q pc sk2 d pv sk3 have "r = cs" by (simp split: if_splits)
      with cs r2 ds r0 qs show ?thesis by simp
    qed
  qed
  from V E M show ?case by blast
qed

lemma parse_value_OutOfFuel:
  assumes "parse_value num (Suc n) s = OutOfFuel"
  shows "\<exists>t. length t < length s \<and>
           (parse_elements num n t [] = OutOfFuel \<or> parse_members num n t [] = OutOfFuel)"
proof -
  obtain c cs where sk: "skip_ws s = c # cs"
    using assms by (cases "skip_ws s") simp_all
  have cs: "length cs < length s" using sk by (rule skip_ws_Cons_length)
  have "c = 0x5B \<or> c = 0x7B"
    using assms sk by (auto split: if_splits option.splits)
  then obtain d ds where sk2: "skip_ws cs = d # ds"
    using assms sk by (cases "skip_ws cs") auto
  have ds: "length (d # ds) \<le> length cs" using length_skip_ws [of cs] sk2 by simp
  have "parse_elements num n (d # ds) [] = OutOfFuel \<or> parse_members num n (d # ds) [] = OutOfFuel"
    using assms sk sk2 by (auto split: if_splits option.splits)
  with ds cs show ?thesis by (intro exI [of _ "d # ds"]) simp
qed

lemma parse_elements_OutOfFuel:
  assumes "parse_elements num (Suc n) s acc = OutOfFuel"
  shows "parse_value num n s = OutOfFuel \<or>
         (\<exists>t acc'. length t + 2 \<le> length s \<and> parse_elements num n t acc' = OutOfFuel)"
proof (cases "parse_value num n s")
  case OutOfFuel
  then show ?thesis by simp
next
  case Reject
  with assms show ?thesis by simp
next
  case (Accept v r)
  have r: "length r < length s" using parse_progress [of num n] Accept by blast
  obtain c cs where sk: "skip_ws r = c # cs"
    using assms Accept by (cases "skip_ws r") simp_all
  have cs: "length cs < length r" using sk by (rule skip_ws_Cons_length)
  have "parse_elements num n cs (acc @ [v]) = OutOfFuel"
    using assms Accept sk by (simp split: if_splits)
  with r cs show ?thesis by (intro disjI2 exI [of _ cs] exI [of _ "acc @ [v]"]) simp
qed

lemma parse_members_OutOfFuel:
  assumes "parse_members num (Suc n) s acc = OutOfFuel"
  shows "\<exists>t. length t + 2 \<le> length s \<and>
           (parse_value num n t = OutOfFuel \<or> (\<exists>acc'. parse_members num n t acc' = OutOfFuel))"
proof -
  obtain q qs where sk: "skip_ws s = q # qs"
    using assms by (cases "skip_ws s") simp_all
  have qs: "length qs < length s" using sk by (rule skip_ws_Cons_length)
  from assms sk have q: "q = 0x22" by (simp split: if_splits)
  from assms sk q obtain k r0 where pc: "parse_chars [] qs = Some (k, r0)"
    by (cases "parse_chars [] qs") auto
  have r0: "length r0 < length qs" using pc by (rule parse_chars_length)
  from assms sk q pc obtain d ds where sk2: "skip_ws r0 = d # ds"
    by (cases "skip_ws r0") simp_all
  have ds: "length ds < length r0" using sk2 by (rule skip_ws_Cons_length)
  from assms sk q pc sk2 have d: "d = 0x3A" by (simp split: if_splits)
  show ?thesis
  proof (cases "parse_value num n ds")
    case OutOfFuel
    with ds r0 qs show ?thesis by (intro exI [of _ ds]) simp
  next
    case Reject
    with assms sk q pc sk2 d show ?thesis by simp
  next
    case (Accept v r2)
    have r2: "length r2 < length ds" using parse_progress [of num n] Accept by blast
    from assms sk q pc sk2 d Accept obtain c cs where sk3: "skip_ws r2 = c # cs"
      by (cases "skip_ws r2") simp_all
    have cs: "length cs < length r2" using sk3 by (rule skip_ws_Cons_length)
    have "parse_members num n cs (CreateDataProperty acc k v) = OutOfFuel"
      using assms sk q pc sk2 d Accept sk3 by (simp split: if_splits)
    with cs r2 ds r0 qs show ?thesis
      by (intro exI [of _ cs]) auto
  qed
qed

lemma parse_fuel:
  "(\<forall>s. 2 * length s + 1 \<le> n \<longrightarrow> parse_value num n s \<noteq> OutOfFuel) \<and>
   (\<forall>s acc. 2 * length s + 2 \<le> n \<longrightarrow> parse_elements num n s acc \<noteq> OutOfFuel) \<and>
   (\<forall>s acc. 2 * length s + 2 \<le> n \<longrightarrow> parse_members num n s acc \<noteq> OutOfFuel)"
proof (induction n)
  case 0
  show ?case by simp
next
  case (Suc n)
  have V: "parse_value num (Suc n) s \<noteq> OutOfFuel" if b: "2 * length s + 1 \<le> Suc n" for s
  proof
    assume "parse_value num (Suc n) s = OutOfFuel"
    from parse_value_OutOfFuel [OF this] obtain t where
      t: "length t < length s"
      and f: "parse_elements num n t [] = OutOfFuel \<or> parse_members num n t [] = OutOfFuel"
      by blast
    from t b have "2 * length t + 2 \<le> n" by simp
    with Suc.IH f show False by blast
  qed
  have E: "parse_elements num (Suc n) s acc \<noteq> OutOfFuel" if b: "2 * length s + 2 \<le> Suc n" for s acc
  proof
    assume "parse_elements num (Suc n) s acc = OutOfFuel"
    from parse_elements_OutOfFuel [OF this] consider
      (v) "parse_value num n s = OutOfFuel"
      | (e) t acc' where "length t + 2 \<le> length s" "parse_elements num n t acc' = OutOfFuel"
      by blast
    then show False
    proof cases
      case v
      from b have "2 * length s + 1 \<le> n" by simp
      with Suc.IH v show False by blast
    next
      case e
      from e(1) b have "2 * length t + 2 \<le> n" by simp
      with Suc.IH e(2) show False by blast
    qed
  qed
  have M: "parse_members num (Suc n) s acc \<noteq> OutOfFuel" if b: "2 * length s + 2 \<le> Suc n" for s acc
  proof
    assume "parse_members num (Suc n) s acc = OutOfFuel"
    from parse_members_OutOfFuel [OF this] obtain t where
      t: "length t + 2 \<le> length s"
      and f: "parse_value num n t = OutOfFuel \<or> (\<exists>acc'. parse_members num n t acc' = OutOfFuel)"
      by blast
    from t b have "2 * length t + 2 \<le> n" "2 * length t + 1 \<le> n" by simp_all
    with Suc.IH f show False by blast
  qed
  from V E M show ?case by blast
qed

lemma parse_value_fuel: "parse_value num (2 * length s + 1) s \<noteq> OutOfFuel"
  using parse_fuel [of "2 * length s + 1" num] by blast

lemma JSON_parse_results:
  "JSON_parse num s = Inl SyntaxError \<or> (\<exists>v. JSON_parse num s = Inr v)"
  by (cases "parse_value num (2 * length s + 1) s") (auto simp: JSON_parse_def)

section \<open>The handlers, statement by statement\<close>

lemmas io_defs =
  return_def throw_def bind_def seq_def try_catch_def try_finally_def try_catch_finally_def
  setJoke_def setJokeError_def setJokeLoading_def setNoteInput_def setNotes_def
  setNotesError_def setNotesLoading_def
  AsyncStorage_getItem_def AsyncStorage_setItem_def AsyncStorage_removeItem_def
  fetch_def response_json_def

lemma handleAddNote_nonempty:
  "trim (noteInput s) \<noteq> [] \<Longrightarrow>
   handleAddNote nstr fault s =
     (Inr (),
      s\<lparr>notes := notes s @ [JString (trim (noteInput s))],
        noteInput := [],
        notesError := (case fault of None \<Rightarrow> [] | Some e \<Rightarrow> js ''Failed to save notes''),
        storage := (case fault of
                      None \<Rightarrow> (storage s)(NOTES_KEY \<mapsto>
                        JSON_stringify nstr (JArray (notes s @ [JString (trim (noteInput s))])))
                    | Some e \<Rightarrow> storage s),
        calls := calls s @
          [SetItem NOTES_KEY
             (JSON_stringify nstr (JArray (notes s @ [JString (trim (noteInput s))])))]\<rparr>)"
  by (cases fault) (simp_all add: handleAddNote_def saveNotes_def io_defs Let_def)

lemma handleAddNote_empty:
  "trim (noteInput s) = [] \<Longrightarrow> handleAddNote nstr fault s = (Inr (), s)"
  by (simp add: handleAddNote_def io_defs)

lemma handleClearNotes_eq:
  "handleClearNotes fault s =
     (Inr (),
      s\<lparr>notes := [],
        notesError := (case fault of None \<Rightarrow> [] | Some e \<Rightarrow> js ''Failed to clear notes''),
        storage := (case fault of None \<Rightarrow> (storage s)(NOTES_KEY := None) | Some e \<Rightarrow> storage s),
        calls := calls s @ [RemoveItem NOTES_KEY]\<rparr>)"
  by (cases fault) (simp_all add: handleClearNotes_def io_defs)

lemma loadNotes_rejected:
  "loadNotes num (Some e) s =
     (Inr (), s\<lparr>notesError := js ''Failed to load notes'', notesLoading := False,
               calls := calls s @ [GetItem NOTES_KEY]\<rparr>)"
  by (simp add: loadNotes_def io_defs)

lemma loadNotes_falsy:
  "storage s NOTES_KEY = None \<or> storage s NOTES_KEY = Some [] \<Longrightarrow>
   loadNotes num None s =
     (Inr (), s\<lparr>notesLoading := False, calls := calls s @ [GetItem NOTES_KEY]\<rparr>)"
  by (auto simp add: loadNotes_def io_defs)

lemma loadNotes_parsed:
  "storage s NOTES_KEY = Some text \<Longrightarrow> text \<noteq> [] \<Longrightarrow>
   loadNotes num None s =
     (Inr (),
      case JSON_parse num text of
        Inl e \<Rightarrow> s\<lparr>notesError := js ''Failed to load notes'', notesLoading := False,
                   calls := calls s @ [GetItem NOTES_KEY]\<rparr>
      | Inr parsed \<Rightarrow>
          if isArray parsed
          then s\<lparr>notes := elements parsed, notesLoading := False,
                 calls := calls s @ [GetItem NOTES_KEY]\<rparr>
          else s\<lparr>notes := [], notesError := js ''Saved notes are corrupted'',
                 notesLoading := False, calls := calls s @ [GetItem NOTES_KEY]\<rparr>)"
  by (simp add: loadNotes_def io_defs split: sum.splits)

lemma handleFetchJoke_begin_eq:
  "handleFetchJoke_begin s = (Inr (), s\<lparr>jokeError := [], jokeLoading := True\<rparr>)"
  by (simp add: handleFetchJoke_begin_def io_defs)

lemma handleFetchJoke_try_eq:
  "handleFetchJoke_try num outcome s =
     (Inr (),
      case (case outcome of
              Inl e \<Rightarrow> Inl e
            | Inr r \<Rightarrow>
                if \<not> ok r then Inl (Error (js ''Network response was not ok''))
                else (case body r of Inl e \<Rightarrow> Inl e | Inr text \<Rightarrow> JSON_parse num text)) of
        Inl e \<Rightarrow> s\<lparr>jokeError := js ''Could not fetch a joke. Please try again.'',
                   jokeLoading := False, calls := calls s @ [Fetch JOKE_API_URL]\<rparr>
      | Inr data \<Rightarrow> s\<lparr>joke := data, jokeLoading := False,
                      calls := calls s @ [Fetch JOKE_API_URL]\<rparr>)"
  by (simp add: handleFetchJoke_try_def io_defs split: sum.splits)

lemma JSON_stringify_array_nonempty: "JSON_stringify nstr (JArray xs) \<noteq> []"
  by (simp add: js_def)

lemma JSON_parse_empty: "JSON_parse num [] = Inl SyntaxError"
  by (simp add: JSON_parse_def skip_ws_def)

lemma App_mounted_rejected:
  "App_mounted num (Some e) st =
     (App_initial st)\<lparr>notesError := js ''Failed to load notes'', notesLoading := False,
                       calls := [GetItem NOTES_KEY]\<rparr>"
  by (simp add: App_mounted_def loadNotes_rejected) (simp add: App_initial_def)

lemma App_mounted_falsy:
  "st NOTES_KEY = None \<or> st NOTES_KEY = Some [] \<Longrightarrow>
   App_mounted num None st = (App_initial st)\<lparr>notesLoading := False, calls := [GetItem NOTES_KEY]\<rparr>"
  using loadNotes_falsy [of "App_initial st" num]
  by (simp add: App_mounted_def) (simp add: App_initial_def)

lemma App_mounted_parsed:
  "st NOTES_KEY = Some text \<Longrightarrow> text \<noteq> [] \<Longrightarrow>
   App_mounted num None st =
     (case JSON_parse num text of
        Inl e \<Rightarrow> (App_initial st)\<lparr>notesError := js ''Failed to load notes'', notesLoading := False,
                   calls := [GetItem NOTES_KEY]\<rparr>
      | Inr parsed \<Rightarrow>
          if isArray parsed
          then (App_initial st)\<lparr>notes := elements parsed, notesLoading := False,
                 calls := [GetItem NOTES_KEY]\<rparr>
          else (App_initial st)\<lparr>notes := [], notesError := js ''Saved notes are corrupted'',
                 notesLoading := False, calls := [GetItem NOTES_KEY]\<rparr>)"
  using loadNotes_parsed [of "App_initial st" "text" num]
  by (simp add: App_mounted_def) (simp add: App_initial_def split: sum.splits)

lemma dropWhile_all_iff: "(\<forall>x \<in> set (dropWhile P t). P x) \<longleftrightarrow> dropWhile P t = []"
proof
  assume a: "\<forall>x \<in> set (dropWhile P t). P x"
  show "dropWhile P t = []"
  proof (rule ccontr)
    assume n: "dropWhile P t \<noteq> []"
    then have "\<not> P (hd (dropWhile P t))" by (rule hd_dropWhile)
    moreover have "hd (dropWhile P t) \<in> set (dropWhile P t)" using n by (rule hd_in_set)
    ultimately show False using a by blast
  qed
qed (auto dest: set_dropWhileD)

lemma trim_blank: "trim t = [] \<longleftrightarrow> list_all is_white_space t"
proof -
  have "trim t = [] \<longleftrightarrow> (\<forall>x \<in> set (dropWhile is_white_space t). is_white_space x)"
    by (simp add: trim_def dropWhile_eq_Nil_conv)
  also have "\<dots> \<longleftrightarrow> dropWhile is_white_space t = []"
    by (rule dropWhile_all_iff)
  also have "\<dots> \<longleftrightarrow> list_all is_white_space t"
    by (simp add: dropWhile_eq_Nil_conv list_all_iff)
  finally show ?thesis .
qed

lemma handleFetchJoke_eq:
  "handleFetchJoke num outcome s =
     handleFetchJoke_try num outcome (s\<lparr>jokeError := [], jokeLoading := True\<rparr>)"
  by (simp add: handleFetchJoke_def seq_def bind_def handleFetchJoke_begin_eq)

section \<open>The claims of the specification\<close>

text \<open>
  In the witnesses the Number type is \<open>int\<close>; no number occurs in them.
\<close>

subsection \<open>Adding a note\<close>

text \<open>
  C1. For every state and every input field whose trimmed text is not empty,
  \<open>handleAddNote\<close> appends exactly one element, the trimmed text, at the end of \<open>notes\<close>:
  the length grows by one and the elements that were there stay in place. The value it
  passes to \<open>AsyncStorage.setItem\<close>, whether or not the call then succeeds, is the
  serialization of that whole updated list.
\<close>

theorem handleAddNote_appends:
  assumes "trim (noteInput s) \<noteq> []"
  shows "notes (snd (handleAddNote nstr fault s)) = notes s @ [JString (trim (noteInput s))] \<and>
         length (notes (snd (handleAddNote nstr fault s))) = length (notes s) + 1 \<and>
         take (length (notes s)) (notes (snd (handleAddNote nstr fault s))) = notes s \<and>
         calls (snd (handleAddNote nstr fault s)) =
           calls s @ [SetItem NOTES_KEY
                        (JSON_stringify nstr (JArray (notes (snd (handleAddNote nstr fault s)))))]"
  by (simp add: handleAddNote_nonempty [OF assms])

theorem handleAddNote_appends_witness:
  "trim (noteInput ((App_initial Map.empty)\<lparr>notes := [JString (js ''Call mom'')],
             noteInput := js ''  Buy milk ''\<rparr> :: int app)) \<noteq> [] \<and>
   notes (snd (handleAddNote (\<lambda>i. js ''0'') None
      ((App_initial Map.empty)\<lparr>notes := [JString (js ''Call mom'')],
             noteInput := js ''  Buy milk ''\<rparr> :: int app))) =
     [JString (js ''Call mom''), JString (js ''Buy milk'')] \<and>
   calls (snd (handleAddNote (\<lambda>i. js ''0'') (Some (Error (js ''disk full'')))
      ((App_initial Map.empty)\<lparr>notes := [JString (js ''Call mom'')],
             noteInput := js ''  Buy milk ''\<rparr> :: int app))) =
     [SetItem NOTES_KEY
        (JSON_stringify (\<lambda>i::int. js ''0'') (JArray [JString (js ''Call mom''), JString (js ''Buy milk'')]))]"
proof -
  let ?s = "(App_initial Map.empty)\<lparr>notes := [JString (js ''Call mom'')],
             noteInput := js ''  Buy milk ''\<rparr> :: int app"
  have t: "trim (js ''  Buy milk '') = js ''Buy milk''"
    by (simp add: trim_def js_def is_white_space_def)
  have h: "trim (noteInput ?s) \<noteq> []" by (simp add: t) (simp add: js_def)
  have v: "notes ?s @ [JString (trim (noteInput ?s))] =
           [JString (js ''Call mom''), JString (js ''Buy milk'')]"
    by (simp add: t)
  have c: "calls ?s = []" by (simp add: App_initial_def)
  note ok = handleAddNote_appends [OF h, of "\<lambda>i. js ''0''" None, unfolded v]
  note ko = handleAddNote_appends [OF h, of "\<lambda>i. js ''0''" "Some (Error (js ''disk full''))",
              unfolded v]
  from ok have 1: "notes (snd (handleAddNote (\<lambda>i. js ''0'') None ?s)) =
      [JString (js ''Call mom''), JString (js ''Buy milk'')]"
    by (rule conjunct1)
  from ko have 2: "notes (snd (handleAddNote (\<lambda>i. js ''0'') (Some (Error (js ''disk full''))) ?s)) =
      [JString (js ''Call mom''), JString (js ''Buy milk'')]"
    by (rule conjunct1)
  from ko have 3: "calls (snd (handleAddNote (\<lambda>i. js ''0'') (Some (Error (js ''disk full''))) ?s)) =
      [SetItem NOTES_KEY (JSON_stringify (\<lambda>i::int. js ''0'')
         (JArray [JString (js ''Call mom''), JString (js ''Buy milk'')]))]"
    unfolding 2 c by (simp del: JSON_stringify.simps)
  from h 1 3 show ?thesis by (intro conjI)
qed

text \<open>
  C5. When the input field trims to the empty string, \<open>handleAddNote\<close> returns at once and
  the whole state is as before: the list, the stored contents, the input field, the error
  and the list of storage calls. By \<open>trim_blank\<close> these inputs are the empty string and the
  strings made of white space only.
\<close>

theorem handleAddNote_blank_noop:
  assumes "trim (noteInput s) = []"
  shows "handleAddNote nstr fault s = (Inr (), s) \<and>
         length (notes (snd (handleAddNote nstr fault s))) = length (notes s) \<and>
         storage (snd (handleAddNote nstr fault s)) = storage s \<and>
         noteInput (snd (handleAddNote nstr fault s)) = noteInput s \<and>
         notesError (snd (handleAddNote nstr fault s)) = notesError s \<and>
         calls (snd (handleAddNote nstr fault s)) = calls s"
  by (simp add: handleAddNote_empty [OF assms])

theorem handleAddNote_blank_noop_witness:
  "trim (noteInput ((App_initial Map.empty)\<lparr>noteInput := js ''   ''\<rparr> :: int app)) = [] \<and>
   trim (noteInput (App_initial Map.empty :: int app)) = [] \<and>
   handleAddNote (\<lambda>i. js ''0'') (Some SyntaxError)
       ((App_initial Map.empty)\<lparr>noteInput := js ''   ''\<rparr> :: int app) =
     (Inr (), (App_initial Map.empty)\<lparr>noteInput := js ''   ''\<rparr>) \<and>
   handleAddNote (\<lambda>i. js ''0'') None (App_initial Map.empty :: int app) =
     (Inr (), App_initial Map.empty)"
proof -
  let ?s = "(App_initial Map.empty)\<lparr>noteInput := js ''   ''\<rparr> :: int app"
  let ?e = "App_initial Map.empty :: int app"
  have h: "trim (noteInput ?s) = []"
    by (simp add: trim_def js_def is_white_space_def)
  have h': "trim (noteInput ?e) = []"
    by (simp add: trim_def App_initial_def)
  from handleAddNote_blank_noop [OF h, of "\<lambda>i. js ''0''" "Some SyntaxError"]
       handleAddNote_blank_noop [OF h', of "\<lambda>i. js ''0''" None] h h'
  show ?thesis by simp
qed

subsection \<open>Loading the notes\<close>

text \<open>
  C2. The outcomes of \<open>loadNotes\<close> on the first render. With the slot absent the list is
  empty and there is no error. With a slot that parses to an array the list is that
  array. With a slot that parses to another value the list is empty and the error is
  \<open>Saved notes are corrupted\<close>. When \<open>JSON.parse\<close> throws, or \<open>getItem\<close> is rejected, the
  list is empty and the error is \<open>Failed to load notes\<close>. In every case \<open>notesLoading\<close>
  ends false.
\<close>

theorem loadNotes_outcomes:
  "(st NOTES_KEY = None \<longrightarrow>
      notes (App_mounted num None st) = [] \<and> notesError (App_mounted num None st) = []) \<and>
   (st NOTES_KEY = Some stored \<and> JSON_parse num stored = Inr (JArray xs) \<longrightarrow>
      notes (App_mounted num None st) = xs \<and> notesError (App_mounted num None st) = []) \<and>
   (st NOTES_KEY = Some stored \<and> JSON_parse num stored = Inr v \<and> \<not> isArray v \<longrightarrow>
      notes (App_mounted num None st) = [] \<and>
      notesError (App_mounted num None st) = js ''Saved notes are corrupted'') \<and>
   (st NOTES_KEY = Some stored \<and> stored \<noteq> [] \<and> JSON_parse num stored = Inl e \<longrightarrow>
      notes (App_mounted num None st) = [] \<and>
      notesError (App_mounted num None st) = js ''Failed to load notes'') \<and>
   notes (App_mounted num (Some e') st) = [] \<and>
   notesError (App_mounted num (Some e') st) = js ''Failed to load notes'' \<and>
   notesLoading (App_mounted num fault st) = False"
proof -
  have nonempty: "stored \<noteq> []" if "JSON_parse num stored = Inr w" for w
    using that JSON_parse_empty [of num] by auto
  have absent: "st NOTES_KEY = None \<longrightarrow>
      notes (App_mounted num None st) = [] \<and> notesError (App_mounted num None st) = []"
    by (simp add: App_mounted_falsy) (simp add: App_initial_def)
  have array: "st NOTES_KEY = Some stored \<and> JSON_parse num stored = Inr (JArray xs) \<longrightarrow>
      notes (App_mounted num None st) = xs \<and> notesError (App_mounted num None st) = []"
    using nonempty [of "JArray xs"]
    by (auto simp: App_mounted_parsed) (simp add: App_initial_def)
  have other: "st NOTES_KEY = Some stored \<and> JSON_parse num stored = Inr v \<and> \<not> isArray v \<longrightarrow>
      notes (App_mounted num None st) = [] \<and>
      notesError (App_mounted num None st) = js ''Saved notes are corrupted''"
    using nonempty [of v] by (auto simp: App_mounted_parsed)
  have thrown: "st NOTES_KEY = Some stored \<and> stored \<noteq> [] \<and> JSON_parse num stored = Inl e \<longrightarrow>
      notes (App_mounted num None st) = [] \<and>
      notesError (App_mounted num None st) = js ''Failed to load notes''"
    by (auto simp: App_mounted_parsed) (simp add: App_initial_def)
  have rejected: "notes (App_mounted num (Some e') st) = [] \<and>
      notesError (App_mounted num (Some e') st) = js ''Failed to load notes''"
    by (simp add: App_mounted_rejected) (simp add: App_initial_def)
  have busy: "notesLoading (App_mounted num fault st) = False"
  proof (cases fault)
    case (Some e'')
    then show ?thesis by (simp add: App_mounted_rejected)
  next
    case None
    show ?thesis
    proof (cases "st NOTES_KEY")
      case n: None
      with None show ?thesis by (simp add: App_mounted_falsy)
    next
      case (Some t)
      with None show ?thesis
        by (cases "t = []") (simp_all add: App_mounted_falsy App_mounted_parsed split: sum.splits)
    qed
  qed
  from absent array other thrown rejected busy show ?thesis by blast
qed

theorem loadNotes_outcomes_witness:
  "notes (App_mounted (\<lambda>l. 0::int) None Map.empty) = [] \<and>
   notesError (App_mounted (\<lambda>l. 0::int) None Map.empty) = [] \<and>
   notes (App_mounted (\<lambda>l. 0::int) None
      [NOTES_KEY \<mapsto> JSON_stringify (\<lambda>i::int. js ''0'')
         (JArray [JString (js ''Buy milk''), JString (js ''Call mom'')])]) =
     [JString (js ''Buy milk''), JString (js ''Call mom'')] \<and>
   notesError (App_mounted (\<lambda>l. 0::int) None [NOTES_KEY \<mapsto> js ''{}'']) =
     js ''Saved notes are corrupted'' \<and>
   notesError (App_mounted (\<lambda>l. 0::int) None [NOTES_KEY \<mapsto> js ''oops'']) =
     js ''Failed to load notes''"
proof -
  let ?num = "\<lambda>l :: jsstring. 0::int"
  let ?t1 = "JSON_stringify (\<lambda>i::int. js ''0'') (JArray [JString (js ''Buy milk''), JString (js ''Call mom'')])"
  have p1: "JSON_parse ?num ?t1 = Inr (JArray [JString (js ''Buy milk''), JString (js ''Call mom'')])"
    by code_simp
  have p2: "JSON_parse ?num (js ''{}'') = Inr (JObject [])" by code_simp
  have p3: "JSON_parse ?num (js ''oops'') = Inl SyntaxError" by code_simp
  have n3: "js ''oops'' \<noteq> []" by (simp add: js_def)
  note a = loadNotes_outcomes [where st = Map.empty and num = ?num]
  note b = loadNotes_outcomes [where st = "[NOTES_KEY \<mapsto> ?t1]" and stored = ?t1 and num = ?num
             and xs = "[JString (js ''Buy milk''), JString (js ''Call mom'')]"]
  note c = loadNotes_outcomes [where st = "[NOTES_KEY \<mapsto> js ''{}'']" and stored = "js ''{}''"
             and num = ?num and v = "JObject []"]
  note d = loadNotes_outcomes [where st = "[NOTES_KEY \<mapsto> js ''oops'']" and stored = "js ''oops''"
             and num = ?num and e = SyntaxError]
  from a have "notes (App_mounted ?num None Map.empty) = [] \<and>
               notesError (App_mounted ?num None Map.empty) = []" by simp
  moreover from b p1 have "notes (App_mounted ?num None [NOTES_KEY \<mapsto> ?t1]) =
     [JString (js ''Buy milk''), JString (js ''Call mom'')]" by simp
  moreover from c p2 have "notesError (App_mounted ?num None [NOTES_KEY \<mapsto> js ''{}'']) =
     js ''Saved notes are corrupted''" by simp
  moreover from d p3 n3 have "notesError (App_mounted ?num None [NOTES_KEY \<mapsto> js ''oops'']) =
     js ''Failed to load notes''" by simp
  ultimately show ?thesis by simp
qed

text \<open>
  C10. A slot that holds the empty string is falsy, so \<open>JSON.parse\<close> is not called: the
  list stays empty, no error is set, and the state is the one an absent slot gives, although
  \<open>JSON.parse\<close> of the empty string throws. A string or \<open>null\<close> is all \<open>getItem\<close> returns, and
  the empty string is the only falsy string.
\<close>

theorem loadNotes_empty_string:
  assumes "st NOTES_KEY = Some []"
  shows "notes (App_mounted num None st) = [] \<and>
         notesError (App_mounted num None st) = [] \<and>
         notesLoading (App_mounted num None st) = False \<and>
         App_mounted num None st =
           (App_mounted num None (st(NOTES_KEY := None)))\<lparr>storage := st\<rparr> \<and>
         JSON_parse num [] = Inl SyntaxError"
proof -
  have a: "App_mounted num None st =
      (App_initial st)\<lparr>notesLoading := False, calls := [GetItem NOTES_KEY]\<rparr>"
    using assms by (simp add: App_mounted_falsy)
  have b: "App_mounted num None (st(NOTES_KEY := None)) =
      (App_initial (st(NOTES_KEY := None)))\<lparr>notesLoading := False, calls := [GetItem NOTES_KEY]\<rparr>"
    by (simp add: App_mounted_falsy)
  show ?thesis unfolding a b by (simp add: JSON_parse_empty) (simp add: App_initial_def)
qed

theorem loadNotes_empty_string_witness:
  "[NOTES_KEY \<mapsto> []] NOTES_KEY = Some [] \<and>
   notes (App_mounted (\<lambda>l. 0::int) None [NOTES_KEY \<mapsto> []]) = [] \<and>
   notesError (App_mounted (\<lambda>l. 0::int) None [NOTES_KEY \<mapsto> []]) = [] \<and>
   notesLoading (App_mounted (\<lambda>l. 0::int) None [NOTES_KEY \<mapsto> []]) = False"
proof -
  have h: "[NOTES_KEY \<mapsto> []] NOTES_KEY = Some []" by simp
  from loadNotes_empty_string [where st = "[NOTES_KEY \<mapsto> []]" and num = "\<lambda>l. 0::int", OF h] h
  show ?thesis by blast
qed

subsection \<open>Clearing the notes\<close>

text \<open>
  C3. From every state, and whether \<open>removeItem\<close> succeeds or is rejected,
  \<open>handleClearNotes\<close> leaves \<open>notes\<close> empty; when it is rejected the error is
  \<open>Failed to clear notes\<close> and the list is empty all the same.
\<close>

theorem handleClearNotes_empties:
  "notes (snd (handleClearNotes fault s)) = [] \<and>
   notesError (snd (handleClearNotes (Some e) s)) = js ''Failed to clear notes'' \<and>
   notes (snd (handleClearNotes (Some e) s)) = []"
  by (simp add: handleClearNotes_eq)

subsection \<open>The list and the stored contents\<close>

text \<open>
  C4. After an add whose \<open>setItem\<close> succeeds the slot holds the serialization of the list
  in memory. After a clear whose \<open>removeItem\<close> succeeds, from any state, the slot is absent
  and the list is empty. When \<open>setItem\<close> is rejected the appended note stays in memory, the
  stored contents are the old ones, and the error is \<open>Failed to save notes\<close>.
\<close>

theorem notes_storage_sync:
  "(trim (noteInput s) \<noteq> [] \<longrightarrow>
      storage (snd (handleAddNote nstr None s)) NOTES_KEY =
        Some (JSON_stringify nstr (JArray (notes (snd (handleAddNote nstr None s))))) \<and>
      notesError (snd (handleAddNote nstr None s)) = [] \<and>
      notes (snd (handleAddNote nstr (Some e) s)) = notes s @ [JString (trim (noteInput s))] \<and>
      storage (snd (handleAddNote nstr (Some e) s)) = storage s \<and>
      notesError (snd (handleAddNote nstr (Some e) s)) = js ''Failed to save notes'') \<and>
   storage (snd (handleClearNotes None s)) NOTES_KEY = None \<and>
   notes (snd (handleClearNotes None s)) = [] \<and>
   notesError (snd (handleClearNotes None s)) = [] \<and>
   calls (snd (handleClearNotes None s)) = calls s @ [RemoveItem NOTES_KEY]"
proof -
  have clear: "storage (snd (handleClearNotes None s)) NOTES_KEY = None \<and>
      notes (snd (handleClearNotes None s)) = [] \<and>
      notesError (snd (handleClearNotes None s)) = [] \<and>
      calls (snd (handleClearNotes None s)) = calls s @ [RemoveItem NOTES_KEY]"
    by (simp add: handleClearNotes_eq)
  have add: "storage (snd (handleAddNote nstr None s)) NOTES_KEY =
        Some (JSON_stringify nstr (JArray (notes (snd (handleAddNote nstr None s))))) \<and>
      notesError (snd (handleAddNote nstr None s)) = [] \<and>
      notes (snd (handleAddNote nstr (Some e) s)) = notes s @ [JString (trim (noteInput s))] \<and>
      storage (snd (handleAddNote nstr (Some e) s)) = storage s \<and>
      notesError (snd (handleAddNote nstr (Some e) s)) = js ''Failed to save notes''"
    if h: "trim (noteInput s) \<noteq> []"
    by (simp add: handleAddNote_nonempty [OF h])
  from clear add show ?thesis by blast
qed

theorem notes_storage_sync_witness:
  "trim (noteInput ((App_initial Map.empty)\<lparr>noteInput := js ''Buy milk''\<rparr> :: int app)) \<noteq> [] \<and>
   storage (snd (handleAddNote (\<lambda>i. js ''0'') None
      ((App_initial Map.empty)\<lparr>noteInput := js ''Buy milk''\<rparr> :: int app))) NOTES_KEY =
     Some (js ''['' @ QuoteJSONString (js ''Buy milk'') @ js '']'') \<and>
   notes (snd (handleAddNote (\<lambda>i. js ''0'') (Some (Error (js ''disk full'')))
      ((App_initial Map.empty)\<lparr>noteInput := js ''Buy milk''\<rparr> :: int app))) =
     [JString (js ''Buy milk'')] \<and>
   storage (snd (handleAddNote (\<lambda>i. js ''0'') (Some (Error (js ''disk full'')))
      ((App_initial Map.empty)\<lparr>noteInput := js ''Buy milk''\<rparr> :: int app))) NOTES_KEY = None \<and>
   storage (snd (handleClearNotes None
      ((App_initial [NOTES_KEY \<mapsto> JSON_stringify (\<lambda>i::int. js ''0'')
           (JArray [JString (js ''a''), JString (js ''b''), JString (js ''c'')])])
         \<lparr>notes := [JString (js ''a''), JString (js ''b''), JString (js ''c'')]\<rparr> :: int app)))
     NOTES_KEY = None \<and>
   notes (snd (handleClearNotes None
      ((App_initial [NOTES_KEY \<mapsto> JSON_stringify (\<lambda>i::int. js ''0'')
           (JArray [JString (js ''a''), JString (js ''b''), JString (js ''c'')])])
         \<lparr>notes := [JString (js ''a''), JString (js ''b''), JString (js ''c'')]\<rparr> :: int app))) = []"
proof -
  let ?s = "(App_initial Map.empty)\<lparr>noteInput := js ''Buy milk''\<rparr> :: int app"
  let ?c = "(App_initial [NOTES_KEY \<mapsto> JSON_stringify (\<lambda>i::int. js ''0'')
           (JArray [JString (js ''a''), JString (js ''b''), JString (js ''c'')])])
         \<lparr>notes := [JString (js ''a''), JString (js ''b''), JString (js ''c'')]\<rparr> :: int app"
  have t: "trim (js ''Buy milk'') = js ''Buy milk''"
    by (simp add: trim_def js_def is_white_space_def)
  have h: "trim (noteInput ?s) \<noteq> []" by (simp add: t) (simp add: js_def)
  have n: "notes (snd (handleAddNote (\<lambda>i. js ''0'') None ?s)) = [JString (js ''Buy milk'')]"
    by (simp add: handleAddNote_nonempty [OF h] t) (simp add: App_initial_def)
  have q: "js ''['' @ QuoteJSONString (js ''Buy milk'') @ js '']'' =
           JSON_stringify (\<lambda>i::int. js ''0'') (JArray [JString (js ''Buy milk'')])"
    by simp
  note add = notes_storage_sync [where s = ?s and nstr = "\<lambda>i. js ''0''"
               and e = "Error (js ''disk full'')", THEN conjunct1, rule_format, OF h]
  note clear = notes_storage_sync [where s = ?c and nstr = "\<lambda>i. js ''0''"
               and e = "Error (js ''disk full'')", THEN conjunct2]
  from clear have c: "storage (snd (handleClearNotes None ?c)) NOTES_KEY = None \<and>
      notes (snd (handleClearNotes None ?c)) = []"
    by blast
  from add have a: "storage (snd (handleAddNote (\<lambda>i. js ''0'') None ?s)) NOTES_KEY =
       Some (js ''['' @ QuoteJSONString (js ''Buy milk'') @ js '']'') \<and>
     notes (snd (handleAddNote (\<lambda>i. js ''0'') (Some (Error (js ''disk full''))) ?s)) =
       [JString (js ''Buy milk'')] \<and>
     storage (snd (handleAddNote (\<lambda>i. js ''0'') (Some (Error (js ''disk full''))) ?s)) NOTES_KEY = None"
    unfolding n q by (simp add: t) (simp add: App_initial_def)
  from h a c show ?thesis by blast
qed

text \<open>
  C8. Serializing a list of strings with \<open>JSON.stringify\<close> and parsing the result with
  \<open>JSON.parse\<close> gives the same list, for every list, the empty one included; hence loading
  what \<open>saveNotes\<close> has stored gives the list that was saved.
\<close>

theorem notes_roundtrip:
  "JSON_parse num (JSON_stringify nstr (JArray (map JString xs))) = Inr (JArray (map JString xs)) \<and>
   notes (snd (loadNotes num None (snd (saveNotes nstr None (map JString xs) s)))) = map JString xs"
proof -
  let ?enc = "JSON_stringify nstr (JArray (map JString xs))"
  let ?s1 = "snd (saveNotes nstr None (map JString xs) s)"
  have st: "storage ?s1 NOTES_KEY = Some ?enc"
    by (simp add: saveNotes_def io_defs del: JSON_stringify.simps)
  have "notes (snd (loadNotes num None ?s1)) = map JString xs"
    using loadNotes_parsed [OF st JSON_stringify_array_nonempty, of num]
    by (simp add: JSON_roundtrip del: JSON_stringify.simps)
  then show ?thesis by (simp add: JSON_roundtrip del: JSON_stringify.simps)
qed

subsection \<open>Fetching a joke\<close>



text \<open>
  C7, as the specification states it: the joke card is not rendered while \<open>jokeLoading\<close>
  is true or \<open>jokeError\<close> is not empty. This fails when a request is rejected after one
  that succeeded: the error is set, and what is rendered is the error line followed by the
  card of the earlier joke.
\<close>

theorem stale_joke_shown_with_error:
  "jokeError (snd (handleFetchJoke (\<lambda>l. 0::int) (Inl (TypeError (js ''Network request failed'')))
      (snd (handleFetchJoke (\<lambda>l. 0::int)
         (Inr \<lparr>ok = True, body = Inr (JSON_stringify (\<lambda>i::int. js ''0'')
            (JObject [(js ''setup'', JString (js ''Why?'')), (js ''punchline'', JString (js ''Because.''))]))\<rparr>)
         (App_initial Map.empty))))) \<noteq> [] \<and>
   render_joke (\<lambda>x. x \<noteq> 0)
     (snd (handleFetchJoke (\<lambda>l. 0::int) (Inl (TypeError (js ''Network request failed'')))
      (snd (handleFetchJoke (\<lambda>l. 0::int)
         (Inr \<lparr>ok = True, body = Inr (JSON_stringify (\<lambda>i::int. js ''0'')
            (JObject [(js ''setup'', JString (js ''Why?'')), (js ''punchline'', JString (js ''Because.''))]))\<rparr>)
         (App_initial Map.empty))))) =
     Inr [ErrorText (js ''Could not fetch a joke. Please try again.''),
          JokeCard (Some (JString (js ''Why?''))) (Some (JString (js ''Because.'')))] \<and>
   list_ex is_JokeCard
     [ErrorText (js ''Could not fetch a joke. Please try again.''),
      JokeCard (Some (JString (js ''Why?'')) :: int json option) (Some (JString (js ''Because.'')))]"
proof -
  let ?num = "\<lambda>l :: jsstring. 0::int"
  let ?v = "JObject [(js ''setup'', JString (js ''Why?'')), (js ''punchline'', JString (js ''Because.''))] :: int json"
  let ?t = "JSON_stringify (\<lambda>i::int. js ''0'') ?v"
  have p: "JSON_parse ?num ?t = Inr ?v" by code_simp
  have m: "js ''Could not fetch a joke. Please try again.'' \<noteq> []" by (simp add: js_def)
  have g: "get_property ?v (js ''setup'') = Some (JString (js ''Why?''))"
          "get_property ?v (js ''punchline'') = Some (JString (js ''Because.''))"
    by (simp_all add: js_def)
  show ?thesis
    unfolding handleFetchJoke_eq handleFetchJoke_try_eq
    using p m g by (simp add: render_joke_def App_initial_def del: JSON_stringify.simps get_property.simps)
qed

text \<open>
  C7, amended: whenever \<open>jokeLoading\<close> is true the joke card is not rendered, although the
  joke stays in state (starting a request sets \<open>jokeLoading\<close> and does not change \<open>joke\<close>).
  A non-empty \<open>jokeError\<close> alone does not hide the card: for every joke with strings as
  \<open>setup\<close> and \<open>punchline\<close> there is a state with an error in which the error line and the
  card are both rendered.
\<close>

theorem busy_hides_joke_card:
  "(jokeLoading s \<and> render_joke nb s = Inr els \<longrightarrow> \<not> list_ex is_JokeCard els) \<and>
   joke (snd (handleFetchJoke_begin s)) = joke s \<and>
   jokeLoading (snd (handleFetchJoke_begin s)) \<and>
   (\<exists>t :: 'n app.
      jokeError t \<noteq> [] \<and>
      joke t = JObject [(js ''setup'', JString a), (js ''punchline'', JString b)] \<and>
      render_joke nb t =
        Inr [ErrorText (jokeError t), JokeCard (Some (JString a)) (Some (JString b))])"
proof -
  have busy: "\<not> list_ex is_JokeCard els" if "jokeLoading s \<and> render_joke nb s = Inr els"
    using that by (auto simp: render_joke_def split: if_splits)
  have kept: "joke (snd (handleFetchJoke_begin s)) = joke s \<and>
      jokeLoading (snd (handleFetchJoke_begin s))"
    by (simp add: handleFetchJoke_begin_eq)
  let ?t = "(App_initial Map.empty)
      \<lparr>joke := JObject [(js ''setup'', JString a), (js ''punchline'', JString b)],
        jokeError := js ''Could not fetch a joke. Please try again.''\<rparr> :: 'n app"
  have "jokeError ?t \<noteq> [] \<and>
      joke ?t = JObject [(js ''setup'', JString a), (js ''punchline'', JString b)] \<and>
      render_joke nb ?t =
        Inr [ErrorText (jokeError ?t), JokeCard (Some (JString a)) (Some (JString b))]"
    by (simp add: render_joke_def App_initial_def js_def)
  then have shown: "\<exists>t :: 'n app.
      jokeError t \<noteq> [] \<and>
      joke t = JObject [(js ''setup'', JString a), (js ''punchline'', JString b)] \<and>
      render_joke nb t =
        Inr [ErrorText (jokeError t), JokeCard (Some (JString a)) (Some (JString b))]"
    by (rule exI)
  from busy kept shown show ?thesis by blast
qed

theorem busy_hides_joke_card_witness:
  "jokeLoading ((App_initial Map.empty)
      \<lparr>joke := JObject [(js ''setup'', JString (js ''Why?'')), (js ''punchline'', JString (js ''Because.''))],
        jokeLoading := True\<rparr> :: int app) \<and>
   render_joke (\<lambda>x. x \<noteq> 0) ((App_initial Map.empty)
      \<lparr>joke := JObject [(js ''setup'', JString (js ''Why?'')), (js ''punchline'', JString (js ''Because.''))],
        jokeLoading := True\<rparr> :: int app) = Inr [ActivityIndicator] \<and>
   \<not> list_ex is_JokeCard [ActivityIndicator :: int element]"
proof -
  let ?v = "JObject [(js ''setup'', JString (js ''Why?'')), (js ''punchline'', JString (js ''Because.''))] :: int json"
  let ?b = "(App_initial Map.empty)\<lparr>joke := ?v, jokeLoading := True\<rparr> :: int app"
  have hb: "jokeLoading ?b" by simp
  have r: "render_joke (\<lambda>x. x \<noteq> 0) ?b = Inr [ActivityIndicator]"
    by (simp add: render_joke_def App_initial_def)
  from busy_hides_joke_card [where s = ?b and nb = "\<lambda>x. x \<noteq> 0" and els = "[ActivityIndicator]",
         THEN conjunct1, rule_format, OF conjI [OF hb r]]
  have "\<not> list_ex is_JokeCard [ActivityIndicator :: int element]" .
  with hb r show ?thesis by (intro conjI)
qed

subsection \<open>Errors stay inside the handlers\<close>

text \<open>
  C9. Each of \<open>loadNotes\<close>, \<open>handleFetchJoke\<close>, \<open>saveNotes\<close>, \<open>handleAddNote\<close> and
  \<open>handleClearNotes\<close> completes normally from every state and for every outcome of its
  storage or network call. Every failure leaves the fixed message of its handler in the
  error of its own section (\<open>notesError\<close> for the notes, \<open>jokeError\<close> for the joke): a
  rejected \<open>getItem\<close>, \<open>setItem\<close>, \<open>removeItem\<close> or \<open>fetch\<close>, \<open>JSON.parse\<close> throwing on the
  stored text, a stored value that is not an array, a response that is not \<open>ok\<close>, and
  \<open>response.json()\<close> rejected because the body cannot be read or is not JSON. The only
  values these errors take are the fixed strings, and the error of the other section is not
  touched.
\<close>

theorem handlers_never_throw:
  "fst (loadNotes num fault s) = Inr () \<and>
   fst (handleFetchJoke num outcome s) = Inr () \<and>
   fst (saveNotes nstr fault xs s) = Inr () \<and>
   fst (handleAddNote nstr fault s) = Inr () \<and>
   fst (handleClearNotes fault s) = Inr () \<and>
   notesError (snd (loadNotes num fault s)) \<in>
     {notesError s, js ''Saved notes are corrupted'', js ''Failed to load notes''} \<and>
   notesError (snd (loadNotes num (Some e) s)) = js ''Failed to load notes'' \<and>
   notesError (snd (saveNotes nstr (Some e) xs s)) = js ''Failed to save notes'' \<and>
   notesError (snd (handleClearNotes (Some e) s)) = js ''Failed to clear notes'' \<and>
   jokeError (snd (handleFetchJoke num (Inl e) s)) = js ''Could not fetch a joke. Please try again.'' \<and>
   jokeError (snd (handleFetchJoke num outcome s)) \<in>
     {[], js ''Could not fetch a joke. Please try again.''} \<and>
   jokeError (snd (loadNotes num fault s)) = jokeError s \<and>
   jokeError (snd (handleAddNote nstr fault s)) = jokeError s \<and>
   jokeError (snd (handleClearNotes fault s)) = jokeError s \<and>
   notesError (snd (handleFetchJoke num outcome s)) = notesError s \<and>
   (storage s NOTES_KEY = Some stored \<and> stored \<noteq> [] \<and> JSON_parse num stored = Inl e1 \<longrightarrow>
      notesError (snd (loadNotes num None s)) = js ''Failed to load notes'') \<and>
   (storage s NOTES_KEY = Some stored \<and> JSON_parse num stored = Inr v \<and> \<not> isArray v \<longrightarrow>
      notesError (snd (loadNotes num None s)) = js ''Saved notes are corrupted'') \<and>
   (trim (noteInput s) \<noteq> [] \<longrightarrow>
      notesError (snd (handleAddNote nstr (Some e) s)) = js ''Failed to save notes'') \<and>
   (\<not> ok r \<longrightarrow>
      jokeError (snd (handleFetchJoke num (Inr r) s)) =
        js ''Could not fetch a joke. Please try again.'') \<and>
   (ok r \<and> body r = Inl e2 \<longrightarrow>
      jokeError (snd (handleFetchJoke num (Inr r) s)) =
        js ''Could not fetch a joke. Please try again.'') \<and>
   (ok r \<and> body r = Inr content \<and> JSON_parse num content = Inl e3 \<longrightarrow>
      jokeError (snd (handleFetchJoke num (Inr r) s)) =
        js ''Could not fetch a joke. Please try again.'')"
proof -
  note run = handleFetchJoke_eq
  have load: "fst (loadNotes num fault s) = Inr () \<and>
      notesError (snd (loadNotes num fault s)) \<in>
        {notesError s, js ''Saved notes are corrupted'', js ''Failed to load notes''} \<and>
      jokeError (snd (loadNotes num fault s)) = jokeError s"
  proof (cases fault)
    case (Some e')
    then show ?thesis by (simp add: loadNotes_rejected)
  next
    case None
    show ?thesis
    proof (cases "storage s NOTES_KEY")
      case n: None
      with None show ?thesis by (simp add: loadNotes_falsy)
    next
      case (Some t)
      with None show ?thesis
        by (cases "t = []") (simp_all add: loadNotes_falsy loadNotes_parsed split: sum.splits)
    qed
  qed
  have load_rej: "notesError (snd (loadNotes num (Some e) s)) = js ''Failed to load notes''"
    by (simp add: loadNotes_rejected)
  have load_parse: "notesError (snd (loadNotes num None s)) = js ''Failed to load notes''"
    if "storage s NOTES_KEY = Some stored \<and> stored \<noteq> [] \<and> JSON_parse num stored = Inl e1"
    using that by (simp add: loadNotes_parsed)
  have load_shape: "notesError (snd (loadNotes num None s)) = js ''Saved notes are corrupted''"
    if a: "storage s NOTES_KEY = Some stored \<and> JSON_parse num stored = Inr v \<and> \<not> isArray v"
  proof -
    from a have "stored \<noteq> []" using JSON_parse_empty [of num] by auto
    with a show ?thesis by (simp add: loadNotes_parsed)
  qed
  have fetch: "fst (handleFetchJoke num outcome s) = Inr () \<and>
      jokeError (snd (handleFetchJoke num outcome s)) \<in>
        {[], js ''Could not fetch a joke. Please try again.''} \<and>
      notesError (snd (handleFetchJoke num outcome s)) = notesError s"
    unfolding run handleFetchJoke_try_eq by (simp split: sum.splits)
  have fetch_rej: "jokeError (snd (handleFetchJoke num (Inl e) s)) =
      js ''Could not fetch a joke. Please try again.''"
    unfolding run handleFetchJoke_try_eq by simp
  have fetch_status: "jokeError (snd (handleFetchJoke num (Inr r) s)) =
      js ''Could not fetch a joke. Please try again.''" if "\<not> ok r"
    unfolding run handleFetchJoke_try_eq using that by simp
  have fetch_body: "jokeError (snd (handleFetchJoke num (Inr r) s)) =
      js ''Could not fetch a joke. Please try again.''" if "ok r \<and> body r = Inl e2"
    unfolding run handleFetchJoke_try_eq using that by simp
  have fetch_parse: "jokeError (snd (handleFetchJoke num (Inr r) s)) =
      js ''Could not fetch a joke. Please try again.''"
    if "ok r \<and> body r = Inr content \<and> JSON_parse num content = Inl e3"
    unfolding run handleFetchJoke_try_eq using that by simp
  have save: "fst (saveNotes nstr fault xs s) = Inr () \<and>
      notesError (snd (saveNotes nstr (Some e) xs s)) = js ''Failed to save notes''"
    by (cases fault) (simp_all add: saveNotes_def io_defs)
  have add: "fst (handleAddNote nstr fault s) = Inr () \<and>
      jokeError (snd (handleAddNote nstr fault s)) = jokeError s"
    by (cases "trim (noteInput s) = []") (simp_all add: handleAddNote_empty handleAddNote_nonempty)
  have add_rej: "notesError (snd (handleAddNote nstr (Some e) s)) = js ''Failed to save notes''"
    if "trim (noteInput s) \<noteq> []"
    by (simp add: handleAddNote_nonempty [OF that])
  have clear: "fst (handleClearNotes fault s) = Inr () \<and>
      notesError (snd (handleClearNotes (Some e) s)) = js ''Failed to clear notes'' \<and>
      jokeError (snd (handleClearNotes fault s)) = jokeError s"
    by (simp add: handleClearNotes_eq)
  from load load_rej load_parse load_shape fetch fetch_rej fetch_status fetch_body fetch_parse
       save add add_rej clear
  show ?thesis by blast
qed

theorem handlers_never_throw_witness:
  "notesError (snd (loadNotes (\<lambda>l. 0::int) None (App_initial [NOTES_KEY \<mapsto> js ''oops'']))) =
     js ''Failed to load notes'' \<and>
   notesError (snd (loadNotes (\<lambda>l. 0::int) None (App_initial [NOTES_KEY \<mapsto> js ''{}'']))) =
     js ''Saved notes are corrupted'' \<and>
   notesError (snd (handleAddNote (\<lambda>i. js ''0'') (Some (Error (js ''disk full'')))
      ((App_initial Map.empty)\<lparr>noteInput := js ''Buy milk''\<rparr> :: int app))) =
     js ''Failed to save notes'' \<and>
   jokeError (snd (handleFetchJoke (\<lambda>l. 0::int)
      (Inr \<lparr>ok = False, body = Inr (js ''Not Found'')\<rparr>) (App_initial Map.empty))) =
     js ''Could not fetch a joke. Please try again.'' \<and>
   jokeError (snd (handleFetchJoke (\<lambda>l. 0::int)
      (Inr \<lparr>ok = True, body = Inl (TypeError (js ''Network request failed''))\<rparr>)
      (App_initial Map.empty))) =
     js ''Could not fetch a joke. Please try again.'' \<and>
   jokeError (snd (handleFetchJoke (\<lambda>l. 0::int)
      (Inr \<lparr>ok = True, body = Inr (js ''<html>'')\<rparr>) (App_initial Map.empty))) =
     js ''Could not fetch a joke. Please try again.''"
proof -
  let ?num = "\<lambda>l :: jsstring. 0::int"
  let ?nstr = "\<lambda>i :: int. js ''0''"
  let ?add = "(App_initial Map.empty)\<lparr>noteInput := js ''Buy milk''\<rparr> :: int app"
  let ?r1 = "\<lparr>ok = False, body = Inr (js ''Not Found'')\<rparr>"
  let ?r2 = "\<lparr>ok = True, body = Inl (TypeError (js ''Network request failed''))\<rparr>"
  let ?r3 = "\<lparr>ok = True, body = Inr (js ''<html>'')\<rparr>"
  have p1: "JSON_parse ?num (js ''oops'') = Inl SyntaxError" by code_simp
  have p2: "JSON_parse ?num (js ''{}'') = Inr (JObject [])" by code_simp
  have p3: "JSON_parse ?num (js ''<html>'') = Inl SyntaxError" by code_simp
  have n1: "js ''oops'' \<noteq> []" by (simp add: js_def)
  have t: "trim (noteInput ?add) \<noteq> []"
    by (simp add: trim_def js_def is_white_space_def)
  have s1: "storage (App_initial [NOTES_KEY \<mapsto> js ''oops''] :: int app) NOTES_KEY = Some (js ''oops'')"
    and s2: "storage (App_initial [NOTES_KEY \<mapsto> js ''{}''] :: int app) NOTES_KEY = Some (js ''{}'')"
    by (simp_all add: App_initial_def)
  note a = handlers_never_throw [where num = ?num and s = "App_initial [NOTES_KEY \<mapsto> js ''oops'']"
             and stored = "js ''oops''" and ?e1.0 = SyntaxError]
  note b = handlers_never_throw [where num = ?num and s = "App_initial [NOTES_KEY \<mapsto> js ''{}'']"
             and stored = "js ''{}''" and v = "JObject []"]
  note c = handlers_never_throw [where nstr = ?nstr and s = ?add and e = "Error (js ''disk full'')"]
  note d = handlers_never_throw [where num = ?num and s = "App_initial Map.empty" and r = ?r1]
  note f = handlers_never_throw [where num = ?num and s = "App_initial Map.empty" and r = ?r2
             and ?e2.0 = "TypeError (js ''Network request failed'')"]
  note g = handlers_never_throw [where num = ?num and s = "App_initial Map.empty" and r = ?r3
             and content = "js ''<html>''" and ?e3.0 = SyntaxError]
  from a s1 n1 p1 have 1: "notesError (snd (loadNotes ?num None (App_initial [NOTES_KEY \<mapsto> js ''oops'']))) =
     js ''Failed to load notes''" by blast
  from b s2 p2 have 2: "notesError (snd (loadNotes ?num None (App_initial [NOTES_KEY \<mapsto> js ''{}'']))) =
     js ''Saved notes are corrupted''" by simp
  from c t have 3: "notesError (snd (handleAddNote ?nstr (Some (Error (js ''disk full''))) ?add)) =
     js ''Failed to save notes''" by blast
  from d have 4: "jokeError (snd (handleFetchJoke ?num (Inr ?r1) (App_initial Map.empty))) =
     js ''Could not fetch a joke. Please try again.''" by simp
  from f have 5: "jokeError (snd (handleFetchJoke ?num (Inr ?r2) (App_initial Map.empty))) =
     js ''Could not fetch a joke. Please try again.''" by simp
  from g p3 have 6: "jokeError (snd (handleFetchJoke ?num (Inr ?r3) (App_initial Map.empty))) =
     js ''Could not fetch a joke. Please try again.''" by simp
  from 1 2 3 4 5 6 show ?thesis by (intro conjI)
qed

end
